theory Spec2Isabelle
  imports Complex_Main
begin

section \<open>The item tree (explore.tsx, Types)\<close>

text \<open>
  The TypeScript types of \<^verbatim>\<open>explore.tsx\<close>:
  \<^verbatim>\<open>
  type SavedApp = { name: string; path: string; bundleId?: string };
  type LinkItem = { id: string; type: "link"; title: string; url: string; icon?: string; app?: SavedApp };
  type FolderItem = { id: string; type: "folder"; title: string; icon?: string; items: AnyItem[] };
  type AnyItem = LinkItem | FolderItem;
  type LinksData = { items: AnyItem[] };
  \<close>
  An optional field (absent or \<^verbatim>\<open>undefined\<close>) is an \<open>option\<close>. The tag \<^verbatim>\<open>type\<close> is the
  constructor. The field \<^verbatim>\<open>id\<close> is the selector \<open>item_id\<close>, and the \<^verbatim>\<open>items\<close> of a folder
  is the selector \<open>folder_items\<close>.
\<close>

record SavedApp =
  name :: string
  path :: string
  bundleId :: "string option"

datatype AnyItem =
    LinkItem (item_id: string) (title: string) (url: string)
             (icon: "string option") (app: "SavedApp option")
  | FolderItem (item_id: string) (title: string) (icon: "string option")
               (folder_items: "AnyItem list")

record LinksData =
  items :: "AnyItem list"

fun is_folder :: "AnyItem \<Rightarrow> bool" where
  "is_folder (FolderItem _ _ _ _) = True"
| "is_folder (LinkItem _ _ _ _ _) = False"

subsection \<open>updateFolder\<close>

text \<open>
  \<^verbatim>\<open>
  function traverse(items: AnyItem[]): boolean {
    for (const item of items) {
      if (item.type === "folder") {
        if (item.id === folderId) {
          item.items = updater(item.items || []);
          return true;
        }
        if (item.items && traverse(item.items)) return true;
      }
    }
    return false;
  }
  \<close>
  The source mutates the array in place and returns whether it found the folder; the
  model returns the flag together with the array after the call.
\<close>

fun traverse :: "string \<Rightarrow> (AnyItem list \<Rightarrow> AnyItem list) \<Rightarrow> AnyItem list
                   \<Rightarrow> bool \<times> AnyItem list" where
  "traverse folderId updater [] = (False, [])"
| "traverse folderId updater (LinkItem i t u ic a # rest) =
     (case traverse folderId updater rest of
        (found, rest') \<Rightarrow> (found, LinkItem i t u ic a # rest'))"
| "traverse folderId updater (FolderItem i t ic kids # rest) =
     (if i = folderId then (True, FolderItem i t ic (updater kids) # rest)
      else (case traverse folderId updater kids of
              (True, kids') \<Rightarrow> (True, FolderItem i t ic kids' # rest)
            | (False, kids') \<Rightarrow>
                (case traverse folderId updater rest of
                   (found, rest') \<Rightarrow> (found, FolderItem i t ic kids' # rest'))))"

text \<open>
  \<^verbatim>\<open>
  function updateFolder(data, folderId: string | null, updater) {
    if (!folderId) { data.items = updater(data.items || []); return; }
    ...
    traverse(data.items);
  }
  \<close>
  \<^verbatim>\<open>!folderId\<close> holds for \<^verbatim>\<open>null\<close> and for the empty string.
\<close>

definition updateFolder :: "LinksData \<Rightarrow> string option \<Rightarrow> (AnyItem list \<Rightarrow> AnyItem list)
                             \<Rightarrow> LinksData" where
  "updateFolder data folderId updater =
     (case folderId of
        None \<Rightarrow> data\<lparr>items := updater (items data)\<rparr>
      | Some fid \<Rightarrow>
          if fid = [] then data\<lparr>items := updater (items data)\<rparr>
          else data\<lparr>items := snd (traverse fid updater (items data))\<rparr>)"

text \<open>The ids of all folders of a forest, in depth-first pre-order.\<close>

fun folder_ids :: "AnyItem list \<Rightarrow> string list" where
  "folder_ids [] = []"
| "folder_ids (LinkItem i t u ic a # rest) = folder_ids rest"
| "folder_ids (FolderItem i t ic kids # rest) = i # folder_ids kids @ folder_ids rest"

text \<open>
  The specification's reading of \<^verbatim>\<open>update_folder(tree, "X", f)\<close>: every item stays where and
  what it is, except that the children of the folder with id X become \<open>f\<close> of them.
\<close>

fun replace_children :: "string \<Rightarrow> (AnyItem list \<Rightarrow> AnyItem list) \<Rightarrow> AnyItem \<Rightarrow> AnyItem" where
  "replace_children X f (LinkItem i t u ic a) = LinkItem i t u ic a"
| "replace_children X f (FolderItem i t ic kids) =
     FolderItem i t ic (if i = X then f kids else map (replace_children X f) kids)"

subsection \<open>generateId\<close>

text \<open>
  \<^verbatim>\<open>
  function generateId() {
    return `${Date.now().toString(36)}-${Math.random().toString(36).slice(2, 8)}`;
  }
  \<close>
  The clock and the random source belong to the host. An \<open>id_source\<close> gives, for the
  \<open>k\<close>-th call of \<^verbatim>\<open>generateId\<close>, the two strings \<^verbatim>\<open>Date.now().toString(36)\<close> and
  \<^verbatim>\<open>Math.random().toString(36)\<close> of that call; the functions below that call
  \<^verbatim>\<open>generateId\<close> take the number of calls made so far and return it updated.
  \<^verbatim>\<open>s.slice(2, 8)\<close> is \<open>take 6 (drop 2 s)\<close>.
\<close>

type_synonym id_source = "nat \<Rightarrow> string \<times> string"

definition generateId :: "id_source \<Rightarrow> nat \<Rightarrow> string" where
  "generateId src k = fst (src k) @ ''-'' @ take 6 (drop 2 (snd (src k)))"

subsection \<open>deepCloneItem\<close>

text \<open>
  \<^verbatim>\<open>
  function deepCloneItem(item: AnyItem): AnyItem {
    if (item.type === "link") {
      return { id: generateId(), type: "link", title: item.title, url: item.url,
               icon: item.icon, app: item.app ? { ...item.app } : undefined };
    } else {
      return { id: generateId(), type: "folder", title: item.title, icon: item.icon,
               items: item.items.map(deepCloneItem) };
    }
  }
  \<close>
  The properties of an object literal are evaluated in order, so a folder takes its id
  before its children take theirs; \<open>deepCloneItems\<close> is \<^verbatim>\<open>items.map(deepCloneItem)\<close>, from left
  to right.
\<close>

fun deepCloneItem :: "id_source \<Rightarrow> nat \<Rightarrow> AnyItem \<Rightarrow> AnyItem \<times> nat"
  and deepCloneItems :: "id_source \<Rightarrow> nat \<Rightarrow> AnyItem list \<Rightarrow> AnyItem list \<times> nat" where
  "deepCloneItem src n (LinkItem i t u ic a) =
     (LinkItem (generateId src n) t u ic
        (case a of
           None \<Rightarrow> None
         | Some ap \<Rightarrow> Some \<lparr>name = name ap, path = path ap, bundleId = bundleId ap\<rparr>),
      Suc n)"
| "deepCloneItem src n (FolderItem i t ic kids) =
     (case deepCloneItems src (Suc n) kids of
        (kids', n') \<Rightarrow> (FolderItem (generateId src n) t ic kids', n'))"
| "deepCloneItems src n [] = ([], n)"
| "deepCloneItems src n (x # xs) =
     (case deepCloneItem src n x of
        (x', n1) \<Rightarrow>
          (case deepCloneItems src n1 xs of
             (xs', n2) \<Rightarrow> (x' # xs', n2)))"

subsection \<open>The updaters of moveItem and duplicateItem\<close>

text \<open>
  \<^verbatim>\<open>items.findIndex(p)\<close>: the index of the first element that satisfies \<open>p\<close>; \<open>None\<close> is
  the source's \<^verbatim>\<open>-1\<close>.
\<close>

fun findIndex :: "('a \<Rightarrow> bool) \<Rightarrow> 'a list \<Rightarrow> nat option" where
  "findIndex p [] = None"
| "findIndex p (x # xs) = (if p x then Some 0 else map_option Suc (findIndex p xs))"

text \<open>
  \<^verbatim>\<open>copy.splice(i, 1)\<close> removes the element at \<open>i\<close>, and \<^verbatim>\<open>copy.splice(i, 0, x)\<close> inserts \<open>x\<close>
  before position \<open>i\<close> (at the end when \<open>i\<close> is the length).
\<close>

definition splice_remove :: "nat \<Rightarrow> 'a list \<Rightarrow> 'a list" where
  "splice_remove i xs = take i xs @ drop (Suc i) xs"

definition splice_insert :: "nat \<Rightarrow> 'a \<Rightarrow> 'a list \<Rightarrow> 'a list" where
  "splice_insert i x xs = take i xs @ [x] @ drop i xs"

text \<open>
  The updater that \<^verbatim>\<open>moveItem(itemId, delta)\<close> hands to \<^verbatim>\<open>updateFolder\<close>:
  \<^verbatim>\<open>
  (items) => {
    const idx = items.findIndex((i) => i.id === itemId);
    if (idx === -1) return items;
    const newIdx = idx + delta;
    if (newIdx < 0 || newIdx >= items.length) return items;
    const copy = [...items];
    const [moved] = copy.splice(idx, 1);
    copy.splice(newIdx, 0, moved);
    return copy;
  }
  \<close>
\<close>

definition moveItem_updater :: "string \<Rightarrow> int \<Rightarrow> AnyItem list \<Rightarrow> AnyItem list" where
  "moveItem_updater itemId delta its =
     (case findIndex (\<lambda>i. item_id i = itemId) its of
        None \<Rightarrow> its
      | Some idx \<Rightarrow>
          (let newIdx = int idx + delta in
           if newIdx < 0 \<or> newIdx \<ge> int (length its) then its
           else (let moved = its ! idx;
                     copy = splice_remove idx its
                 in splice_insert (nat newIdx) moved copy)))"

text \<open>\<^verbatim>\<open>copyItem.title = `${copyItem.title} (Copy)`\<close>\<close>

fun set_title :: "string \<Rightarrow> AnyItem \<Rightarrow> AnyItem" where
  "set_title t' (LinkItem i t u ic a) = LinkItem i t' u ic a"
| "set_title t' (FolderItem i t ic kids) = FolderItem i t' ic kids"

text \<open>
  The updater that \<^verbatim>\<open>duplicateItem(itemId)\<close> hands to \<^verbatim>\<open>updateFolder\<close>:
  \<^verbatim>\<open>
  (items) => {
    const idx = items.findIndex((i) => i.id === itemId);
    if (idx === -1) return items;
    const original = items[idx];
    const copyItem = deepCloneItem(original);
    copyItem.title = `${copyItem.title} (Copy)`;
    const newItems = [...items];
    newItems.splice(idx + 1, 0, copyItem);
    return newItems;
  }
  \<close>
  It calls \<^verbatim>\<open>generateId\<close>, so it takes and returns the number of calls.
\<close>

definition duplicateItem_updater :: "id_source \<Rightarrow> nat \<Rightarrow> string \<Rightarrow> AnyItem list
                                      \<Rightarrow> AnyItem list \<times> nat" where
  "duplicateItem_updater src n itemId its =
     (case findIndex (\<lambda>i. item_id i = itemId) its of
        None \<Rightarrow> (its, n)
      | Some idx \<Rightarrow>
          (case deepCloneItem src n (its ! idx) of
             (copyItem, n') \<Rightarrow>
               (splice_insert (idx + 1) (set_title (title copyItem @ '' (Copy)'') copyItem) its,
                n')))"

text \<open>All ids of an item and of a forest, in depth-first pre-order; the number of items.\<close>

fun item_ids :: "AnyItem \<Rightarrow> string list"
  and items_ids :: "AnyItem list \<Rightarrow> string list" where
  "item_ids (LinkItem i t u ic a) = [i]"
| "item_ids (FolderItem i t ic kids) = i # items_ids kids"
| "items_ids [] = []"
| "items_ids (x # xs) = item_ids x @ items_ids xs"

fun item_count :: "AnyItem \<Rightarrow> nat"
  and items_count :: "AnyItem list \<Rightarrow> nat" where
  "item_count (LinkItem i t u ic a) = 1"
| "item_count (FolderItem i t ic kids) = Suc (items_count kids)"
| "items_count [] = 0"
| "items_count (x # xs) = item_count x + items_count xs"

text \<open>An item with every id of its subtree blanked: what is left is all but the ids.\<close>

fun erase_ids :: "AnyItem \<Rightarrow> AnyItem" where
  "erase_ids (LinkItem i t u ic a) = LinkItem [] t u ic a"
| "erase_ids (FolderItem i t ic kids) = FolderItem [] t ic (map erase_ids kids)"

subsection \<open>openUrl, getAllLinksData, openAllLinks\<close>

text \<open>
  \<^verbatim>\<open>
  function getAllLinksData(item: FolderItem): { url: string; app?: SavedApp }[] {
    const data = [];
    for (const child of item.items) {
      if (child.type === "link") data.push({ url: child.url, app: child.app });
      else if (child.type === "folder") data.push(...getAllLinksData(child));
    }
    return data;
  }
  \<close>
  \<open>collect_links\<close> is the loop over \<^verbatim>\<open>item.items\<close>, and a link datum is the pair of the url
  and the optional app. The argument of \<open>getAllLinksData\<close> has the type \<^verbatim>\<open>FolderItem\<close>.
\<close>

type_synonym link_data = "string \<times> SavedApp option"

fun collect_links :: "AnyItem list \<Rightarrow> link_data list" where
  "collect_links [] = []"
| "collect_links (LinkItem i t u ic a # rest) = (u, a) # collect_links rest"
| "collect_links (FolderItem i t ic kids # rest) = collect_links kids @ collect_links rest"

definition getAllLinksData :: "AnyItem \<Rightarrow> link_data list" where
  "getAllLinksData item = collect_links (folder_items item)"

text \<open>Every item of a forest in depth-first pre-order (a folder before its children).\<close>

fun preorder :: "AnyItem list \<Rightarrow> AnyItem list" where
  "preorder [] = []"
| "preorder (LinkItem i t u ic a # rest) = LinkItem i t u ic a # preorder rest"
| "preorder (FolderItem i t ic kids # rest) =
     FolderItem i t ic kids # preorder kids @ preorder rest"

text \<open>
  \<^verbatim>\<open>
  function openUrl(url: string, app?: SavedApp): void {
    const escapedUrl = JSON.stringify(url);
    if (app && process.platform === "darwin") {
      const targetApp = app.bundleId ? `-b ${JSON.stringify(app.bundleId)}`
                                     : `-a ${JSON.stringify(app.path)}`;
      execSync(`open ${targetApp} ${escapedUrl}`);
      return;
    }
    if (process.platform === "darwin") execSync(`open ${escapedUrl}`);
    else if (process.platform === "win32") execSync(`start "" ${escapedUrl}`, { shell: "cmd.exe" });
    else execSync(`xdg-open ${escapedUrl}`);
  }
  \<close>
  The host is the platform, the library function \<^verbatim>\<open>JSON.stringify\<close> on strings (\<open>quote\<close>) and
  \<^verbatim>\<open>execSync\<close>: \<open>execSync h k cmd\<close> tells whether the \<open>k\<close>-th call of \<^verbatim>\<open>execSync\<close>, running the
  command \<open>cmd\<close>, returns (\<open>True\<close>) or throws (\<open>False\<close>). \<open>openUrl\<close> gives the command it runs and
  whether it returned.
\<close>

datatype platform = Darwin | Win32 | OtherPlatform

record host =
  platform :: platform
  quote :: "string \<Rightarrow> string"
  execSync :: "nat \<Rightarrow> string \<Rightarrow> bool"

definition openUrl_command :: "host \<Rightarrow> string \<Rightarrow> SavedApp option \<Rightarrow> string" where
  "openUrl_command h u a =
     (let escapedUrl = quote h u in
      case (a, platform h) of
        (Some ap, Darwin) \<Rightarrow>
          (let targetApp =
                 (case bundleId ap of
                    None \<Rightarrow> ''-a '' @ quote h (path ap)
                  | Some b \<Rightarrow> if b = [] then ''-a '' @ quote h (path ap) else ''-b '' @ quote h b)
           in ''open '' @ targetApp @ '' '' @ escapedUrl)
      | (None, Darwin) \<Rightarrow> ''open '' @ escapedUrl
      | (_, Win32) \<Rightarrow> ''start '' @ [CHR 0x22, CHR 0x22] @ '' '' @ escapedUrl
      | (_, OtherPlatform) \<Rightarrow> ''xdg-open '' @ escapedUrl)"

definition openUrl :: "host \<Rightarrow> nat \<Rightarrow> string \<Rightarrow> SavedApp option \<Rightarrow> string \<times> bool" where
  "openUrl h k u a = (openUrl_command h u a, execSync h k (openUrl_command h u a))"

text \<open>
  \<^verbatim>\<open>
  function openAllLinks(folder: FolderItem): void {
    const links = getAllLinksData(folder);
    if (links.length === 0) {
      showToast({ style: Toast.Style.Failure, title: "No links in this folder" });
      return;
    }
    for (const link of links) {
      try { openUrl(link.url, link.app); }
      catch (e) { console.error(`Failed to open ${link.url}:`, e); }
    }
    showToast({ style: Toast.Style.Success,
                title: `Opened ${links.length} link${links.length === 1 ? "" : "s"}` });
  }
  \<close>
  The effects are kept in a record: the calls of \<^verbatim>\<open>openUrl\<close> in order (\<open>attempts\<close>), the
  commands run, the lines written to the console, and the toast shown. The calls of
  \<^verbatim>\<open>execSync\<close> are counted from 0.
\<close>

datatype toast = ToastFailure string | ToastSuccess string

record open_effects =
  attempts :: "link_data list"
  commands :: "string list"
  console :: "string list"
  toast :: toast

text \<open>The decimal numeral of a length, as the template literal prints it.\<close>

fun decimal :: "nat \<Rightarrow> string" where
  "decimal n =
     (if n < 10 then [''0123456789'' ! n]
      else decimal (n div 10) @ [''0123456789'' ! (n mod 10)])"

declare decimal.simps [simp del]

fun open_each :: "host \<Rightarrow> nat \<Rightarrow> link_data list
                   \<Rightarrow> link_data list \<times> string list \<times> string list" where
  "open_each h k [] = ([], [], [])"
| "open_each h k ((u, a) # rest) =
     (case openUrl h k u a of
        (cmd, ok) \<Rightarrow>
          (case open_each h (Suc k) rest of
             (att, cmds, errs) \<Rightarrow>
               ((u, a) # att, cmd # cmds,
                (if ok then errs else (''Failed to open '' @ u @ '':'') # errs))))"

definition openAllLinks :: "host \<Rightarrow> AnyItem \<Rightarrow> open_effects" where
  "openAllLinks h folder =
     (let links = getAllLinksData folder in
      if length links = 0
      then \<lparr>attempts = [], commands = [], console = [],
            toast = ToastFailure ''No links in this folder''\<rparr>
      else (case open_each h 0 links of
              (att, cmds, errs) \<Rightarrow>
                \<lparr>attempts = att, commands = cmds, console = errs,
                 toast = ToastSuccess (''Opened '' @ decimal (length links) @ '' link''
                                        @ (if length links = 1 then [] else ''s''))\<rparr>))"

section \<open>Documents as JavaScript values (migrateData, loadLinks, saveLinks)\<close>

text \<open>
  \<^verbatim>\<open>migrateData(data: unknown)\<close> inspects whatever \<^verbatim>\<open>JSON.parse\<close> returned, so its argument is a
  JavaScript value. An object is the list of its properties in insertion order; the
  objects that \<^verbatim>\<open>migrateData\<close> builds hold properties whose value is \<^verbatim>\<open>undefined\<close>
  (\<^verbatim>\<open>icon: f.icon\<close>), so \<^verbatim>\<open>undefined\<close> is a value here. Numbers are rationals: only their being
  zero matters below.
\<close>

datatype jsval =
    Undefined
  | Null
  | Bool bool
  | Num rat
  | Str string
  | Arr "jsval list"
  | Obj "(string \<times> jsval) list"

datatype error = TypeError

text \<open>\<^verbatim>\<open>x || y\<close> and \<^verbatim>\<open>x && y\<close> test whether \<open>x\<close> is truthy.\<close>

fun truthy :: "jsval \<Rightarrow> bool" where
  "truthy Undefined = False"
| "truthy Null = False"
| "truthy (Bool b) = b"
| "truthy (Num r) = (r \<noteq> 0)"
| "truthy (Str s) = (s \<noteq> [])"
| "truthy (Arr xs) = True"
| "truthy (Obj kvs) = True"

definition js_or :: "jsval \<Rightarrow> jsval \<Rightarrow> jsval" where
  "js_or a b = (if truthy a then a else b)"

fun typeof :: "jsval \<Rightarrow> string" where
  "typeof Undefined = ''undefined''"
| "typeof Null = ''object''"
| "typeof (Bool b) = ''boolean''"
| "typeof (Num r) = ''number''"
| "typeof (Str s) = ''string''"
| "typeof (Arr xs) = ''object''"
| "typeof (Obj kvs) = ''object''"

text \<open>
  \<^verbatim>\<open>v.k\<close> for the property names the source reads (\<^verbatim>\<open>items\<close>, \<^verbatim>\<open>folders\<close>, \<^verbatim>\<open>links\<close>, \<^verbatim>\<open>id\<close>,
  \<^verbatim>\<open>title\<close>, \<^verbatim>\<open>name\<close>, \<^verbatim>\<open>url\<close>, \<^verbatim>\<open>icon\<close>, \<^verbatim>\<open>app\<close>, \<^verbatim>\<open>type\<close>, \<^verbatim>\<open>path\<close>, \<^verbatim>\<open>bundleId\<close>): none of
  them is defined by a prototype of arrays, strings, numbers or booleans, so only an object
  can have them. Reading a field of \<^verbatim>\<open>null\<close> or \<^verbatim>\<open>undefined\<close> throws; the callers test for
  that before they use \<open>property\<close>.
\<close>

fun property :: "jsval \<Rightarrow> string \<Rightarrow> jsval" where
  "property (Obj kvs) k = (case map_of kvs k of Some v \<Rightarrow> v | None \<Rightarrow> Undefined)"
| "property v k = Undefined"

text \<open>\<^verbatim>\<open>k in v\<close> for the same property names, on a value whose \<^verbatim>\<open>typeof\<close> is \<^verbatim>\<open>"object"\<close>.\<close>

fun in_op :: "string \<Rightarrow> jsval \<Rightarrow> bool" where
  "in_op k (Obj kvs) = (k \<in> set (map fst kvs))"
| "in_op k v = False"

fun isArray :: "jsval \<Rightarrow> bool" where
  "isArray (Arr xs) = True"
| "isArray v = False"

subsection \<open>migrateData\<close>

text \<open>
  The callback of \<^verbatim>\<open>f.links.forEach\<close>:
  \<^verbatim>\<open>
  const link = l as Record<string, unknown>;
  subItems.push({
    id: (link.id as string) || generateId(),
    type: "link",
    title: (link.title as string) || (link.url as string),
    url: link.url as string,
    icon: link.icon as string | undefined,
    app: link.app as SavedApp | undefined,
  });
  \<close>
  The casts do nothing at run time. \<^verbatim>\<open>link.id\<close> throws a \<^verbatim>\<open>TypeError\<close> when \<open>l\<close> is \<^verbatim>\<open>null\<close> (or
  \<^verbatim>\<open>undefined\<close>). \<^verbatim>\<open>generateId\<close> is called only when \<^verbatim>\<open>link.id\<close> is falsy.
\<close>

definition convertLink :: "id_source \<Rightarrow> nat \<Rightarrow> jsval \<Rightarrow> error + (jsval \<times> nat)" where
  "convertLink src n l =
     (if l = Null \<or> l = Undefined then Inl TypeError
      else (case (if truthy (property l ''id'') then (property l ''id'', n)
                  else (Str (generateId src n), Suc n)) of
              (i, n') \<Rightarrow>
                Inr (Obj [(''id'', i),
                          (''type'', Str ''link''),
                          (''title'', js_or (property l ''title'') (property l ''url'')),
                          (''url'', property l ''url''),
                          (''icon'', property l ''icon''),
                          (''app'', property l ''app'')],
                     n')))"

fun convertLinks :: "id_source \<Rightarrow> nat \<Rightarrow> jsval list \<Rightarrow> error + (jsval list \<times> nat)" where
  "convertLinks src n [] = Inr ([], n)"
| "convertLinks src n (l # ls) =
     (case convertLink src n l of
        Inl e \<Rightarrow> Inl e
      | Inr (y, n1) \<Rightarrow>
          (case convertLinks src n1 ls of
             Inl e \<Rightarrow> Inl e
           | Inr (ys, n2) \<Rightarrow> Inr (y # ys, n2)))"

text \<open>
  \<^verbatim>\<open>
  function convertFolder(f: Record<string, unknown>): FolderItem {
    const subItems: AnyItem[] = [];
    if (Array.isArray(f.folders)) {
      f.folders.forEach((sub: unknown) => subItems.push(convertFolder(sub as Record<string, unknown>)));
    }
    if (Array.isArray(f.links)) {
      f.links.forEach((l: unknown) => { ... });
    }
    // Strict ordering so icon is above items
    return {
      id: (f.id as string) || generateId(),
      type: "folder",
      title: (f.title as string) || (f.name as string) || "Unnamed Folder",
      icon: f.icon as string | undefined,
      items: subItems,
    };
  }
  \<close>
  \<open>convertFolders\<close> is the \<^verbatim>\<open>forEach\<close> over the nested folders. The folder's own id is generated
  last, after those of its descendants. \<^verbatim>\<open>f.folders\<close> throws when \<open>f\<close> is \<^verbatim>\<open>null\<close> (or
  \<^verbatim>\<open>undefined\<close>); an exception ends the migration.
\<close>

function convertFolder :: "id_source \<Rightarrow> nat \<Rightarrow> jsval \<Rightarrow> error + (jsval \<times> nat)"
  and convertFolders :: "id_source \<Rightarrow> nat \<Rightarrow> jsval list \<Rightarrow> error + (jsval list \<times> nat)" where
  "convertFolder src n f =
     (if f = Null \<or> f = Undefined then Inl TypeError
      else (case (case property f ''folders'' of
                    Arr subs \<Rightarrow> convertFolders src n subs
                  | _ \<Rightarrow> Inr ([], n)) of
              Inl e \<Rightarrow> Inl e
            | Inr (subFolders, n1) \<Rightarrow>
                (case (case property f ''links'' of
                         Arr ls \<Rightarrow> convertLinks src n1 ls
                       | _ \<Rightarrow> Inr ([], n1)) of
                   Inl e \<Rightarrow> Inl e
                 | Inr (subLinks, n2) \<Rightarrow>
                     (case (if truthy (property f ''id'') then (property f ''id'', n2)
                            else (Str (generateId src n2), Suc n2)) of
                        (i, n3) \<Rightarrow>
                          Inr (Obj [(''id'', i),
                                    (''type'', Str ''folder''),
                                    (''title'', js_or (property f ''title'')
                                                  (js_or (property f ''name'') (Str ''Unnamed Folder''))),
                                    (''icon'', property f ''icon''),
                                    (''items'', Arr (subFolders @ subLinks))],
                               n3)))))"
| "convertFolders src n [] = Inr ([], n)"
| "convertFolders src n (x # xs) =
     (case convertFolder src n x of
        Inl e \<Rightarrow> Inl e
      | Inr (y, n1) \<Rightarrow>
          (case convertFolders src n1 xs of
             Inl e \<Rightarrow> Inl e
           | Inr (ys, n2) \<Rightarrow> Inr (y # ys, n2)))"
  by pat_completeness auto

termination
proof (relation "measure (\<lambda>x. case x of Inl (src, n, f) \<Rightarrow> size f
                                       | Inr (src, n, fs) \<Rightarrow> size_list size fs)")
  show "wf (measure (\<lambda>x. case x of Inl (src, n, f) \<Rightarrow> size f
                                   | Inr (src, n, fs) \<Rightarrow> size_list size fs))"
    by simp
next
  fix src :: id_source and n :: nat and f :: jsval and subs :: "jsval list"
  assume "\<not> (f = Null \<or> f = Undefined)" and p: "property f ''folders'' = Arr subs"
  have m: "map_of kvs k = Some v \<Longrightarrow> size v < Suc (size_list (size_prod (\<lambda>_. 0) size) kvs)"
    for kvs :: "(string \<times> jsval) list" and k v
    by (induction kvs) (auto split: if_splits)
  from p obtain kvs where f: "f = Obj kvs" and k: "map_of kvs ''folders'' = Some (Arr subs)"
    by (cases f) (auto split: option.splits)
  from m[OF k] f have "size (Arr subs) < size f" by simp
  then show "(Inr (src, n, subs), Inl (src, n, f))
      \<in> measure (\<lambda>x. case x of Inl (src, n, f) \<Rightarrow> size f
                               | Inr (src, n, fs) \<Rightarrow> size_list size fs)"
    by simp
qed auto

declare convertFolder.simps [simp del]

text \<open>
  \<^verbatim>\<open>
  function migrateData(data: unknown): LinksData {
    if (data && typeof data === "object" && "items" in data) {
      const d = data as Record<string, unknown>;
      if (Array.isArray(d.items)) return data as LinksData;
    }
    const items: AnyItem[] = [];
    ...
    if (data && typeof data === "object" && "folders" in data) {
      const d = data as Record<string, unknown>;
      if (Array.isArray(d.folders)) {
        d.folders.forEach((f: unknown) => items.push(convertFolder(f as Record<string, unknown>)));
      }
    }
    return { items };
  }
  \<close>
\<close>

definition empty_document :: jsval where
  "empty_document = Obj [(''items'', Arr [])]"

definition migrateData :: "id_source \<Rightarrow> nat \<Rightarrow> jsval \<Rightarrow> error + (jsval \<times> nat)" where
  "migrateData src n data =
     (if truthy data \<and> typeof data = ''object'' \<and> in_op ''items'' data
         \<and> isArray (property data ''items'')
      then Inr (data, n)
      else if truthy data \<and> typeof data = ''object'' \<and> in_op ''folders'' data
      then (case property data ''folders'' of
              Arr fs \<Rightarrow>
                (case convertFolders src n fs of
                   Inl e \<Rightarrow> Inl e
                 | Inr (its, n') \<Rightarrow> Inr (Obj [(''items'', Arr its)], n'))
            | _ \<Rightarrow> Inr (empty_document, n))
      else Inr (empty_document, n))"

text \<open>
  The two shapes the specification names: a document of the current schema has an \<^verbatim>\<open>items\<close>
  sequence, a document of the legacy schema has a \<^verbatim>\<open>folders\<close> sequence.
\<close>

definition current_shape :: "jsval \<Rightarrow> bool" where
  "current_shape data = (case data of Obj kvs \<Rightarrow> isArray (property data ''items'') | _ \<Rightarrow> False)"

definition legacy_shape :: "jsval \<Rightarrow> bool" where
  "legacy_shape data = (case data of Obj kvs \<Rightarrow> isArray (property data ''folders'') | _ \<Rightarrow> False)"

subsection \<open>The host\<close>

text \<open>
  The two directories are those of the host (\<^verbatim>\<open>environment.supportPath\<close>,
  \<^verbatim>\<open>environment.assetsPath\<close>). The library functions that the source calls on paths and
  strings are taken as the host gives them: \<^verbatim>\<open>path.join\<close>, \<^verbatim>\<open>String.prototype.trim\<close>, and the
  iterator of a string (\<open>code_points s\<close> are the strings, one per code point, that iterating
  over \<open>s\<close> yields). Nothing is assumed about them.
\<close>

record environment =
  supportPath :: string
  assetsPath :: string
  join :: "string \<Rightarrow> string \<Rightarrow> string"
  trim :: "string \<Rightarrow> string"
  code_points :: "string \<Rightarrow> string list"

subsection \<open>getPreferencePath, loadLinks\<close>

text \<open>
  \<^verbatim>\<open>
  function getPreferencePath(): string | undefined {
    try {
      const prefs = getPreferenceValues<{ linksPath?: string }>();
      return prefs.linksPath?.trim() || undefined;
    } catch { return undefined; }
  }
  \<close>
  The argument \<open>linksPath\<close> is the preference of that name; \<open>None\<close> when it is not set or
  \<^verbatim>\<open>getPreferenceValues\<close> throws.
\<close>

definition getPreferencePath :: "environment \<Rightarrow> string option \<Rightarrow> string option" where
  "getPreferencePath env linksPath =
     (case linksPath of
        None \<Rightarrow> None
      | Some s \<Rightarrow> if trim env s = [] then None else Some (trim env s))"

text \<open>
  The file system is a map from paths to files; a path outside its domain does not exist
  (\<^verbatim>\<open>fs.existsSync\<close> is false). A file is identified with what
  \<^verbatim>\<open>JSON.parse(fs.readFileSync(p, "utf-8"))\<close> does on it: return a value, or throw (the file
  cannot be read or is not JSON).
\<close>

datatype file_content = Json jsval | Unparsable

type_synonym files = "string \<Rightarrow> file_content option"

text \<open>
  \<^verbatim>\<open>
  const tryLoad = (p: string) => {
    if (fs.existsSync(p)) {
      try { const raw = fs.readFileSync(p, "utf-8"); return JSON.parse(raw); }
      catch (e) { console.error(`Failed to load links from ${p}:`, e); }
    }
    return null;
  };
  \<close>
  The result is the value returned and the lines written to the console.
\<close>

definition tryLoad :: "files \<Rightarrow> string \<Rightarrow> jsval \<times> string list" where
  "tryLoad fs p =
     (case fs p of
        None \<Rightarrow> (Null, [])
      | Some (Json v) \<Rightarrow> (v, [])
      | Some Unparsable \<Rightarrow> (Null, [''Failed to load links from '' @ p @ '':'']))"

text \<open>
  \<^verbatim>\<open>
  function loadLinks(): LinksData {
    const prefPath = getPreferencePath();
    const rawData = (prefPath ? tryLoad(prefPath) : null) ||
      tryLoad(path.join(environment.supportPath, "links.json")) ||
      tryLoad(path.join(environment.assetsPath, "links.json")) || { items: [] };
    return migrateData(rawData);
  }
  \<close>
  \<^verbatim>\<open>||\<close> evaluates its right operand only when the left one is falsy. The result is what
  \<^verbatim>\<open>migrateData\<close> gives, and the console lines.
\<close>

definition loadLinks :: "environment \<Rightarrow> string option \<Rightarrow> files \<Rightarrow> id_source \<Rightarrow> nat
                          \<Rightarrow> (error + (jsval \<times> nat)) \<times> string list" where
  "loadLinks env linksPath fs src n =
     (case (case getPreferencePath env linksPath of
              None \<Rightarrow> (Null, [])
            | Some prefPath \<Rightarrow> if prefPath \<noteq> [] then tryLoad fs prefPath else (Null, [])) of
        (r1, log1) \<Rightarrow>
          if truthy r1 then (migrateData src n r1, log1)
          else (case tryLoad fs (join env (supportPath env) ''links.json'') of
                  (r2, log2) \<Rightarrow>
                    if truthy r2 then (migrateData src n r2, log1 @ log2)
                    else (case tryLoad fs (join env (assetsPath env) ''links.json'') of
                            (r3, log3) \<Rightarrow>
                              if truthy r3 then (migrateData src n r3, log1 @ log2 @ log3)
                              else (migrateData src n empty_document, log1 @ log2 @ log3))))"

text \<open>
  The candidate paths in the order the specification lists them, and the first of them
  that holds a usable document.
\<close>

definition candidates :: "environment \<Rightarrow> string option \<Rightarrow> string list" where
  "candidates env linksPath =
     (case getPreferencePath env linksPath of None \<Rightarrow> [] | Some p \<Rightarrow> [p])
     @ [join env (supportPath env) ''links.json'', join env (assetsPath env) ''links.json'']"

definition parses :: "files \<Rightarrow> string \<Rightarrow> bool" where
  "parses fs p = (case fs p of Some (Json v) \<Rightarrow> True | _ \<Rightarrow> False)"

definition parses_truthy :: "files \<Rightarrow> string \<Rightarrow> bool" where
  "parses_truthy fs p = (case fs p of Some (Json v) \<Rightarrow> truthy v | _ \<Rightarrow> False)"

definition fails_to_parse :: "files \<Rightarrow> string \<Rightarrow> bool" where
  "fails_to_parse fs p = (fs p = Some Unparsable)"

definition parsed :: "files \<Rightarrow> string \<Rightarrow> jsval" where
  "parsed fs p = (case fs p of Some (Json v) \<Rightarrow> v | _ \<Rightarrow> Null)"

definition first_document :: "(string \<Rightarrow> bool) \<Rightarrow> files \<Rightarrow> string list \<Rightarrow> jsval" where
  "first_document usable fs ps =
     (case find usable ps of None \<Rightarrow> empty_document | Some p \<Rightarrow> parsed fs p)"

text \<open>The elements a \<^verbatim>\<open>forEach\<close> guarded by \<^verbatim>\<open>Array.isArray\<close> visits: none when the value is no array.\<close>

fun elements :: "jsval \<Rightarrow> jsval list" where
  "elements (Arr xs) = xs"
| "elements v = []"

text \<open>The console line of \<^verbatim>\<open>tryLoad\<close> for a path.\<close>

definition failure_line :: "string \<Rightarrow> string" where
  "failure_line p = ''Failed to load links from '' @ p @ '':''"

text \<open>
  The entries \<^verbatim>\<open>convertFolder\<close> dereferences: a legacy folder is convertible when it is neither
  \<^verbatim>\<open>null\<close> nor \<^verbatim>\<open>undefined\<close>, each entry of its \<^verbatim>\<open>folders\<close> array is convertible, and no entry
  of its \<^verbatim>\<open>links\<close> array is \<^verbatim>\<open>null\<close> or \<^verbatim>\<open>undefined\<close>.
\<close>

definition dereferenceable :: "jsval \<Rightarrow> bool" where
  "dereferenceable v = (v \<noteq> Null \<and> v \<noteq> Undefined)"

function convertible :: "jsval \<Rightarrow> bool"
  and all_convertible :: "jsval list \<Rightarrow> bool" where
  "convertible f =
     (if f = Null \<or> f = Undefined then False
      else (case property f ''folders'' of
              Arr subs \<Rightarrow> all_convertible subs
            | _ \<Rightarrow> True)
           \<and> list_all dereferenceable (elements (property f ''links'')))"
| "all_convertible [] = True"
| "all_convertible (x # xs) = (if convertible x then all_convertible xs else False)"
  by pat_completeness auto

termination
proof (relation "measure (\<lambda>x. case x of Inl v \<Rightarrow> size v | Inr vs \<Rightarrow> size_list size vs)")
  show "wf (measure (\<lambda>x. case x of Inl v \<Rightarrow> size v | Inr vs \<Rightarrow> size_list size vs))"
    by simp
next
  fix f :: jsval and subs :: "jsval list"
  assume p: "property f ''folders'' = Arr subs"
  have m: "map_of kvs k = Some w \<Longrightarrow> size w < Suc (size_list (size_prod (\<lambda>_. 0) size) kvs)"
    for kvs :: "(string \<times> jsval) list" and k w
    by (induction kvs) (auto split: if_splits)
  from p obtain kvs where f: "f = Obj kvs" and k: "map_of kvs ''folders'' = Some (Arr subs)"
    by (cases f) (auto split: option.splits)
  from m[OF k] f have "size (Arr subs) < size f" by simp
  then show "(Inr subs, Inl f)
      \<in> measure (\<lambda>x. case x of Inl v \<Rightarrow> size v | Inr vs \<Rightarrow> size_list size vs)"
    by simp
qed auto

declare convertible.simps [simp del]

text \<open>The values on which \<^verbatim>\<open>migrateData\<close> dereferences no \<^verbatim>\<open>null\<close>.\<close>

definition migratable :: "jsval \<Rightarrow> bool" where
  "migratable raw =
     (current_shape raw \<or> all_convertible (elements (property raw ''folders'')))"

subsection \<open>Typed documents: saveLinks and the type assertion\<close>

text \<open>
  \<^verbatim>\<open>JSON.stringify(data, null, 2)\<close> writes the properties of each object in order and leaves
  out those whose value is \<^verbatim>\<open>undefined\<close>. \<open>json_of_data\<close> is the value \<^verbatim>\<open>JSON.parse\<close> returns on
  the text written for a tree of the type \<^verbatim>\<open>LinksData\<close>, with the properties in the order of
  the type's declaration.
\<close>

definition json_of_app :: "SavedApp \<Rightarrow> jsval" where
  "json_of_app a =
     Obj ([(''name'', Str (name a)), (''path'', Str (path a))]
          @ (case bundleId a of None \<Rightarrow> [] | Some b \<Rightarrow> [(''bundleId'', Str b)]))"

fun json_of_item :: "AnyItem \<Rightarrow> jsval" where
  "json_of_item (LinkItem i t u ic a) =
     Obj ([(''id'', Str i), (''type'', Str ''link''), (''title'', Str t), (''url'', Str u)]
          @ (case ic of None \<Rightarrow> [] | Some s \<Rightarrow> [(''icon'', Str s)])
          @ (case a of None \<Rightarrow> [] | Some ap \<Rightarrow> [(''app'', json_of_app ap)]))"
| "json_of_item (FolderItem i t ic kids) =
     Obj ([(''id'', Str i), (''type'', Str ''folder''), (''title'', Str t)]
          @ (case ic of None \<Rightarrow> [] | Some s \<Rightarrow> [(''icon'', Str s)])
          @ [(''items'', Arr (map json_of_item kids))])"

definition json_of_data :: "LinksData \<Rightarrow> jsval" where
  "json_of_data data = Obj [(''items'', Arr (map json_of_item (items data)))]"

text \<open>
  \<^verbatim>\<open>
  function saveLinks(data: LinksData) {
    const prefPath = getPreferencePath();
    const targetPath = prefPath || path.join(environment.supportPath, "links.json");
    const dir = path.dirname(targetPath);
    if (!fs.existsSync(dir)) fs.mkdirSync(dir, { recursive: true });
    fs.writeFileSync(targetPath, JSON.stringify(data, null, 2), "utf-8");
  }
  \<close>
  Directories are not part of the file map: the source creates the directory when it is
  missing, and the write is taken to succeed.
\<close>

definition saveLinks :: "environment \<Rightarrow> string option \<Rightarrow> files \<Rightarrow> LinksData \<Rightarrow> files" where
  "saveLinks env linksPath fs data =
     (let targetPath =
            (case getPreferencePath env linksPath of
               None \<Rightarrow> join env (supportPath env) ''links.json''
             | Some prefPath \<Rightarrow>
                 if prefPath \<noteq> [] then prefPath else join env (supportPath env) ''links.json'')
      in fs(targetPath \<mapsto> Json (json_of_data data)))"

text \<open>
  \<^verbatim>\<open>loadLinks\<close> returns its value as a \<^verbatim>\<open>LinksData\<close> (\<^verbatim>\<open>return data as LinksData\<close>) without a check
  at run time. \<open>as_LinksData\<close> reads a value through that type: each declared property by
  its name, an optional one absent or \<^verbatim>\<open>undefined\<close> as \<open>None\<close>, other properties ignored. It
  is \<open>None\<close> on a value that does not have the type.
\<close>

fun as_string :: "jsval \<Rightarrow> string option" where
  "as_string (Str s) = Some s"
| "as_string v = None"

fun as_optional_string :: "jsval \<Rightarrow> string option option" where
  "as_optional_string Undefined = Some None"
| "as_optional_string (Str s) = Some (Some s)"
| "as_optional_string v = None"

definition as_SavedApp :: "jsval \<Rightarrow> SavedApp option" where
  "as_SavedApp v =
     (case v of
        Obj kvs \<Rightarrow>
          (case as_string (property v ''name'') of
             None \<Rightarrow> None
           | Some n \<Rightarrow>
               (case as_string (property v ''path'') of
                  None \<Rightarrow> None
                | Some p \<Rightarrow>
                    (case as_optional_string (property v ''bundleId'') of
                       None \<Rightarrow> None
                     | Some b \<Rightarrow> Some \<lparr>name = n, path = p, bundleId = b\<rparr>)))
      | _ \<Rightarrow> None)"

definition as_optional_SavedApp :: "jsval \<Rightarrow> SavedApp option option" where
  "as_optional_SavedApp v = (if v = Undefined then Some None else map_option Some (as_SavedApp v))"

function as_AnyItem :: "jsval \<Rightarrow> AnyItem option"
  and as_AnyItems :: "jsval list \<Rightarrow> AnyItem list option" where
  "as_AnyItem v =
     (case as_string (property v ''id'') of
        None \<Rightarrow> None
      | Some i \<Rightarrow>
          (case as_string (property v ''title'') of
             None \<Rightarrow> None
           | Some t \<Rightarrow>
               (case as_optional_string (property v ''icon'') of
                  None \<Rightarrow> None
                | Some ic \<Rightarrow>
                    if property v ''type'' = Str ''link''
                    then (case as_string (property v ''url'') of
                            None \<Rightarrow> None
                          | Some u \<Rightarrow>
                              (case as_optional_SavedApp (property v ''app'') of
                                 None \<Rightarrow> None
                               | Some a \<Rightarrow> Some (LinkItem i t u ic a)))
                    else if property v ''type'' = Str ''folder''
                    then (case property v ''items'' of
                            Arr xs \<Rightarrow> map_option (FolderItem i t ic) (as_AnyItems xs)
                          | _ \<Rightarrow> None)
                    else None)))"
| "as_AnyItems [] = Some []"
| "as_AnyItems (x # xs) =
     (case as_AnyItem x of
        None \<Rightarrow> None
      | Some y \<Rightarrow> map_option ((#) y) (as_AnyItems xs))"
  by pat_completeness auto

termination
proof (relation "measure (\<lambda>x. case x of Inl v \<Rightarrow> size v | Inr vs \<Rightarrow> size_list size vs)")
  show "wf (measure (\<lambda>x. case x of Inl v \<Rightarrow> size v | Inr vs \<Rightarrow> size_list size vs))"
    by simp
next
  fix v :: jsval and xs :: "jsval list"
  assume p: "property v ''items'' = Arr xs"
  have m: "map_of kvs k = Some w \<Longrightarrow> size w < Suc (size_list (size_prod (\<lambda>_. 0) size) kvs)"
    for kvs :: "(string \<times> jsval) list" and k w
    by (induction kvs) (auto split: if_splits)
  from p obtain kvs where f: "v = Obj kvs" and k: "map_of kvs ''items'' = Some (Arr xs)"
    by (cases v) (auto split: option.splits)
  from m[OF k] f have "size (Arr xs) < size v" by simp
  then show "(Inr xs, Inl v)
      \<in> measure (\<lambda>x. case x of Inl v \<Rightarrow> size v | Inr vs \<Rightarrow> size_list size vs)"
    by simp
qed auto

declare as_AnyItem.simps [simp del]

definition as_LinksData :: "jsval \<Rightarrow> LinksData option" where
  "as_LinksData v =
     (case property v ''items'' of
        Arr xs \<Rightarrow> map_option (\<lambda>its. \<lparr>items = its\<rparr>) (as_AnyItems xs)
      | _ \<Rightarrow> None)"

subsection \<open>updateFolder and saveLinks on the loaded value\<close>





text \<open>
  \<^verbatim>\<open>JSON.parse(JSON.stringify(v))\<close>: a property whose value is \<^verbatim>\<open>undefined\<close> is left out and
  \<^verbatim>\<open>undefined\<close> in an array becomes \<^verbatim>\<open>null\<close>. \<open>first_entries\<close> are the entries that count, the
  first of each name. \<^verbatim>\<open>JSON.stringify(undefined)\<close> is \<^verbatim>\<open>undefined\<close>, no text.
\<close>

fun first_entries :: "(string \<times> 'a) list \<Rightarrow> (string \<times> 'a) list" where
  "first_entries [] = []"
| "first_entries (e # kvs) = e # first_entries (filter (\<lambda>e'. fst e' \<noteq> fst e) kvs)"

function to_json :: "jsval \<Rightarrow> jsval" where
  "to_json (Arr xs) = Arr (map (\<lambda>x. if x = Undefined then Null else to_json x) xs)"
| "to_json (Obj kvs) =
     Obj (filter (\<lambda>e. snd e \<noteq> Undefined)
            (first_entries (map (\<lambda>e. (fst e, to_json (snd e))) kvs)))"
| "to_json Undefined = Undefined"
| "to_json Null = Null"
| "to_json (Bool b) = Bool b"
| "to_json (Num r) = Num r"
| "to_json (Str s) = Str s"
  by pat_completeness auto

termination
proof (relation "measure size")
  show "wf (measure (size :: jsval \<Rightarrow> nat))" by simp
next
  fix xs :: "jsval list" and x :: jsval
  assume "x \<in> set xs"
  then have "size x < Suc (size_list size xs)"
    by (induction xs) auto
  then show "(x, Arr xs) \<in> measure size" by simp
next
  fix kvs :: "(string \<times> jsval) list" and e :: "string \<times> jsval"
  assume "e \<in> set kvs"
  then have "size (snd e) < Suc (size_list (size_prod (\<lambda>_. 0) size) kvs)"
    by (induction kvs) auto
  then show "(snd e, Obj kvs) \<in> measure size" by simp
qed

text \<open>
  \<^verbatim>\<open>saveLinks(data)\<close> on a value: the file written holds the text of \<open>data\<close>. Without a text
  (\<open>data\<close> is \<^verbatim>\<open>undefined\<close>) \<^verbatim>\<open>fs.writeFileSync\<close> throws a \<^verbatim>\<open>TypeError\<close>. On the JSON document of a
  typed tree this is \<open>saveLinks\<close>.
\<close>

definition saveLinks_js :: "environment \<Rightarrow> string option \<Rightarrow> files \<Rightarrow> jsval \<Rightarrow> error + files" where
  "saveLinks_js env linksPath fs data =
     (let targetPath =
            (case getPreferencePath env linksPath of
               None \<Rightarrow> join env (supportPath env) ''links.json''
             | Some prefPath \<Rightarrow>
                 if prefPath \<noteq> [] then prefPath else join env (supportPath env) ''links.json'')
      in if data = Undefined then Inl TypeError
         else Inr (fs(targetPath \<mapsto> Json (to_json data))))"

subsection \<open>AddLinkForm.handleSubmit\<close>










section \<open>Example data\<close>

text \<open>
  An id source for the examples: the \<open>k\<close>-th call sees the clock string \<^verbatim>\<open>lx\<close> followed by
  \<open>k\<close> zeros and the random string \<^verbatim>\<open>0.4fzyo82mvyr\<close>, so the ids are \<^verbatim>\<open>lx-4fzyo8\<close>,
  \<^verbatim>\<open>lx0-4fzyo8\<close>, and so on.
\<close>

definition example_source :: id_source where
  "example_source k = (''lx'' @ replicate k CHR ''0'', ''0.4fzyo82mvyr'')"

definition gmail :: AnyItem where
  "gmail = LinkItem ''l1'' ''Gmail'' ''https://mail.google.com'' None None"

definition slack :: AnyItem where
  "slack = LinkItem ''l2'' ''Slack'' ''https://slack.com'' None None"

definition docs :: AnyItem where
  "docs = LinkItem ''l3'' ''Docs'' ''https://docs.example.org'' None None"

definition news :: AnyItem where
  "news = LinkItem ''l4'' ''News'' ''https://news.example.org'' None None"

definition reading :: AnyItem where
  "reading = FolderItem ''reading'' ''Reading'' None [docs]"

definition work :: AnyItem where
  "work = FolderItem ''work'' ''Work'' None [gmail, slack, reading]"

definition example_tree :: LinksData where
  "example_tree = \<lparr>items = [work, news]\<rparr>"

text \<open>
  A macOS host on which the second call of \<^verbatim>\<open>execSync\<close> throws and every other call returns;
  strings are quoted by enclosing them in double quotes.
\<close>

definition example_host :: host where
  "example_host =
     \<lparr>platform = Darwin,
      quote = (\<lambda>s. CHR 0x22 # s @ [CHR 0x22]),
      execSync = (\<lambda>k cmd. k \<noteq> 1)\<rparr>"

definition empty_folders :: AnyItem where
  "empty_folders = FolderItem ''e1'' ''Empty'' None [FolderItem ''e2'' ''Inner'' None []]"

text \<open>The legacy document of the README and of the specification.\<close>

definition legacy_example :: jsval where
  "legacy_example =
     Obj [(''folders'',
           Arr [Obj [(''id'', Str ''work''),
                     (''name'', Str ''Work''),
                     (''links'',
                      Arr [Obj [(''title'', Str ''Gmail''),
                                (''url'', Str ''https://mail.google.com'')]])]])]"

text \<open>A legacy document with \<^verbatim>\<open>null\<close> in place of a folder.\<close>

definition legacy_null_folder :: jsval where
  "legacy_null_folder = Obj [(''folders'', Arr [Null])]"

text \<open>A legacy document with \<^verbatim>\<open>null\<close> in place of a link.\<close>

definition legacy_null_link :: jsval where
  "legacy_null_link = Obj [(''folders'', Arr [Obj [(''links'', Arr [Null])]])]"

text \<open>
  A host with the support directory \<^verbatim>\<open>/support\<close> and the assets directory \<^verbatim>\<open>/assets\<close>, whose
  strings are ASCII: \<^verbatim>\<open>trim\<close> strips tab, line feed, vertical tab, form feed, carriage return
  and space, and every character is a code point. In
  \<open>null_then_document\<close> the support file holds the JSON text \<^verbatim>\<open>null\<close> and the assets file a
  document with one link; in \<open>empty_store\<close> the support file holds a document without items.
\<close>

definition is_space :: "char \<Rightarrow> bool" where
  "is_space c = (c \<in> set [CHR 0x09, CHR 0x0A, CHR 0x0B, CHR 0x0C, CHR 0x0D, CHR 0x20])"

definition ascii_trim :: "string \<Rightarrow> string" where
  "ascii_trim s = rev (dropWhile is_space (rev (dropWhile is_space s)))"

definition example_env :: environment where
  "example_env =
     \<lparr>supportPath = ''/support'', assetsPath = ''/assets'',
      join = (\<lambda>dir file. dir @ ''/'' @ file),
      trim = ascii_trim,
      code_points = map (\<lambda>c. [c])\<rparr>"

definition null_then_document :: files where
  "null_then_document p =
     (if p = ''/support/links.json'' then Some (Json Null)
      else if p = ''/assets/links.json'' then Some (Json (json_of_data \<lparr>items = [gmail]\<rparr>))
      else None)"

definition broken_then_document :: files where
  "broken_then_document p =
     (if p = ''/prefs/my.json'' then Some Unparsable
      else if p = ''/assets/links.json'' then Some (Json (json_of_data \<lparr>items = [gmail]\<rparr>))
      else None)"


text \<open>The tree the legacy example migrates to, given the id generated for its link.\<close>

definition migrated_example :: "string \<Rightarrow> jsval" where
  "migrated_example gid =
     Obj [(''items'',
           Arr [Obj [(''id'', Str ''work''),
                     (''type'', Str ''folder''),
                     (''title'', Str ''Work''),
                     (''icon'', Undefined),
                     (''items'',
                      Arr [Obj [(''id'', Str gid),
                                (''type'', Str ''link''),
                                (''title'', Str ''Gmail''),
                                (''url'', Str ''https://mail.google.com''),
                                (''icon'', Undefined),
                                (''app'', Undefined)]])]])]"

definition legacy_work_folder :: jsval where
  "legacy_work_folder =
     Obj [(''id'', Str ''work''),
          (''name'', Str ''Work''),
          (''links'',
           Arr [Obj [(''title'', Str ''Gmail''), (''url'', Str ''https://mail.google.com'')]])]"

text \<open>
  A legacy folder that lists its links before its nested folders, and the folder item it
  is converted to when the id source is \<open>example_source\<close> and no id was generated before.
\<close>

definition legacy_nested_folder :: jsval where
  "legacy_nested_folder =
     Obj [(''name'', Str ''Top''),
          (''links'', Arr [Obj [(''url'', Str ''https://a.example'')]]),
          (''folders'', Arr [legacy_work_folder])]"

definition converted_nested_folder :: jsval where
  "converted_nested_folder =
     Obj [(''id'', Str ''lx00-4fzyo8''),
          (''type'', Str ''folder''),
          (''title'', Str ''Top''),
          (''icon'', Undefined),
          (''items'',
           Arr [Obj [(''id'', Str ''work''),
                     (''type'', Str ''folder''),
                     (''title'', Str ''Work''),
                     (''icon'', Undefined),
                     (''items'',
                      Arr [Obj [(''id'', Str ''lx-4fzyo8''),
                                (''type'', Str ''link''),
                                (''title'', Str ''Gmail''),
                                (''url'', Str ''https://mail.google.com''),
                                (''icon'', Undefined),
                                (''app'', Undefined)]])],
                Obj [(''id'', Str ''lx0-4fzyo8''),
                     (''type'', Str ''link''),
                     (''title'', Str ''https://a.example''),
                     (''url'', Str ''https://a.example''),
                     (''icon'', Undefined),
                     (''app'', Undefined)]])]"




section \<open>Properties of updateFolder\<close>

lemma traverse_found_iff: "fst (traverse X f xs) = (X \<in> set (folder_ids xs))"
  by (induction X f xs rule: traverse.induct) (auto split: prod.splits bool.splits)

lemma traverse_absent: "X \<notin> set (folder_ids xs) \<Longrightarrow> traverse X f xs = (False, xs)"
  by (induction X f xs rule: traverse.induct) (auto split: prod.splits bool.splits)

lemma replace_children_absent:
  "X \<notin> set (folder_ids xs) \<Longrightarrow> map (replace_children X f) xs = xs"
  by (induction xs rule: folder_ids.induct) auto

lemma traverse_unique:
  "count_list (folder_ids xs) X \<le> 1 \<Longrightarrow> snd (traverse X f xs) = map (replace_children X f) xs"
proof (induction X f xs rule: traverse.induct)
  case (1 folderId updater)
  then show ?case by simp
next
  case (2 folderId updater i t u ic a rest)
  then show ?case by (auto split: prod.splits)
next
  case (3 folderId updater i t ic kids rest)
  show ?case
  proof (cases "i = folderId")
    case True
    with 3(3) have "count_list (folder_ids kids @ folder_ids rest) folderId = 0" by simp
    then have "folderId \<notin> set (folder_ids rest)" by (simp add: count_list_0_iff)
    with True show ?thesis by (simp add: replace_children_absent)
  next
    case False
    with 3(3) have c: "count_list (folder_ids kids) folderId + count_list (folder_ids rest) folderId \<le> 1"
      by simp
    then have ck: "count_list (folder_ids kids) folderId \<le> 1" by simp
    have ih1: "snd (traverse folderId updater kids) = map (replace_children folderId updater) kids"
      using 3(1)[OF False ck] .
    show ?thesis
    proof (cases "folderId \<in> set (folder_ids kids)")
      case True
      then have "count_list (folder_ids kids) folderId \<noteq> 0" by (simp add: count_list_0_iff)
      with c have "count_list (folder_ids rest) folderId = 0" by simp
      then have nr: "folderId \<notin> set (folder_ids rest)" by (simp add: count_list_0_iff)
      from True have "fst (traverse folderId updater kids)" by (simp add: traverse_found_iff)
      with ih1 False nr show ?thesis
        by (auto split: prod.splits bool.splits simp: replace_children_absent)
    next
      case nk: False
      then have tk: "traverse folderId updater kids = (False, kids)" by (rule traverse_absent)
      from c have cr: "count_list (folder_ids rest) folderId \<le> 1" by simp
      have "snd (traverse folderId updater rest) = map (replace_children folderId updater) rest"
        using 3(2)[OF False tk[symmetric] _ cr] by simp
      with False tk nk show ?thesis
        by (auto split: prod.splits simp: replace_children_absent)
    qed
  qed
qed

lemmas example_defs = example_tree_def work_def reading_def news_def docs_def slack_def gmail_def

text \<open>
  C1, as the specification states it: \<^verbatim>\<open>update_folder(tree, "X", f)\<close> is a no-op when no folder
  has the id X. The guard \<^verbatim>\<open>if (!folderId)\<close> sends the empty string the way of \<^verbatim>\<open>null\<close>:
  no folder of the example tree has the id \<^verbatim>\<open>""\<close>, and still the call with \<^verbatim>\<open>""\<close> changes the
  tree (it applies the updater to the top level).
\<close>

theorem updateFolder_empty_id_counterexample:
  "[] \<notin> set (folder_ids (items example_tree)) \<and>
   updateFolder example_tree (Some []) tl \<noteq> example_tree"
  by (simp add: updateFolder_def example_defs)

text \<open>
  C1, amended: with \<^verbatim>\<open>null\<close> (and with the empty string, which the guard treats alike)
  \<open>updateFolder\<close> replaces the top-level sequence by the updater's result and nothing else.
  With a non-empty id X it leaves the tree as it is when no folder has the id X; and when at
  most one folder has the id X, the resulting tree is the old one with the children of that
  folder, wherever it is nested, replaced by the updater's result: links, the ids, titles
  and icons of all folders, the top level and the children of every other folder stay.
\<close>

theorem updateFolder_scoping:
  "((folderId = None \<or> folderId = Some []) \<longrightarrow>
      updateFolder data folderId f = data\<lparr>items := f (items data)\<rparr>) \<and>
   (X \<noteq> [] \<and> X \<notin> set (folder_ids (items data)) \<longrightarrow>
      updateFolder data (Some X) f = data) \<and>
   (X \<noteq> [] \<and> count_list (folder_ids (items data)) X \<le> 1 \<longrightarrow>
      updateFolder data (Some X) f = data\<lparr>items := map (replace_children X f) (items data)\<rparr>)"
proof (intro conjI impI)
  assume "folderId = None \<or> folderId = Some []"
  then show "updateFolder data folderId f = data\<lparr>items := f (items data)\<rparr>"
    by (auto simp: updateFolder_def)
next
  assume "X \<noteq> [] \<and> X \<notin> set (folder_ids (items data))"
  then show "updateFolder data (Some X) f = data"
    by (simp add: updateFolder_def traverse_absent)
next
  assume "X \<noteq> [] \<and> count_list (folder_ids (items data)) X \<le> 1"
  then show "updateFolder data (Some X) f = data\<lparr>items := map (replace_children X f) (items data)\<rparr>"
    by (simp add: updateFolder_def traverse_unique)
qed

theorem updateFolder_scoping_witness:
  "updateFolder example_tree None tl = example_tree\<lparr>items := tl (items example_tree)\<rparr> \<and>
   (''inbox'' \<noteq> [] \<and> ''inbox'' \<notin> set (folder_ids (items example_tree))) \<and>
   updateFolder example_tree (Some ''inbox'') tl = example_tree \<and>
   (''reading'' \<noteq> [] \<and> count_list (folder_ids (items example_tree)) ''reading'' \<le> 1) \<and>
   updateFolder example_tree (Some ''reading'') tl
     = \<lparr>items = [FolderItem ''work'' ''Work'' None
                    [gmail, slack, FolderItem ''reading'' ''Reading'' None []], news]\<rparr>"
proof -
  have h1: "''inbox'' \<noteq> [] \<and> ''inbox'' \<notin> set (folder_ids (items example_tree))"
    by (simp add: example_defs)
  have h2: "''reading'' \<noteq> [] \<and> count_list (folder_ids (items example_tree)) ''reading'' \<le> 1"
    by (simp add: example_defs)
  note t1 = updateFolder_scoping [of None example_tree tl "''inbox''"]
  note t2 = updateFolder_scoping [of None example_tree tl "''reading''"]
  from t1 have c1: "updateFolder example_tree None tl = example_tree\<lparr>items := tl (items example_tree)\<rparr>"
    by simp
  from t1 h1 have c2: "updateFolder example_tree (Some ''inbox'') tl = example_tree"
    by blast
  from t2 h2 have "updateFolder example_tree (Some ''reading'') tl
      = example_tree\<lparr>items := map (replace_children ''reading'' tl) (items example_tree)\<rparr>"
    by blast
  then have c3: "updateFolder example_tree (Some ''reading'') tl
     = \<lparr>items = [FolderItem ''work'' ''Work'' None
                    [gmail, slack, FolderItem ''reading'' ''Reading'' None []], news]\<rparr>"
    by (simp add: example_defs)
  from c1 h1 c2 h2 c3 show ?thesis by blast
qed

section \<open>Properties of the move and duplicate updaters\<close>

lemma findIndex_Some:
  "findIndex p xs = Some i \<Longrightarrow> i < length xs \<and> p (xs ! i) \<and> (\<forall>j<i. \<not> p (xs ! j))"
proof (induction xs arbitrary: i)
  case Nil
  then show ?case by simp
next
  case (Cons x xs)
  show ?case
  proof (cases "p x")
    case True
    with Cons.prems show ?thesis by simp
  next
    case False
    with Cons.prems obtain k where k: "findIndex p xs = Some k" "i = Suc k" by auto
    from Cons.IH[OF k(1)] False k(2) show ?thesis
      by (auto simp: less_Suc_eq_0_disj)
  qed
qed

lemma findIndex_None: "findIndex p xs = None \<longleftrightarrow> (\<forall>x\<in>set xs. \<not> p x)"
  by (induction xs) auto

lemma adjacent_split:
  assumes "Suc i < length xs"
  obtains as a b bs where "xs = as @ a # b # bs" "length as = i"
proof -
  have "xs = take i xs @ xs ! i # drop (Suc i) xs"
    using assms by (simp add: id_take_nth_drop)
  moreover have "drop (Suc i) xs = xs ! Suc i # drop (Suc (Suc i)) xs"
    using assms by (simp add: Cons_nth_drop_Suc)
  ultimately have "xs = take i xs @ xs ! i # xs ! Suc i # drop (Suc (Suc i)) xs" by simp
  moreover have "length (take i xs) = i" using assms by simp
  ultimately show thesis using that by blast
qed

lemma swap_down:
  assumes "Suc i < length xs"
  shows "splice_insert (Suc i) (xs ! i) (splice_remove i xs) = xs[i := xs ! Suc i, Suc i := xs ! i]"
proof -
  from assms obtain as a b bs where xs: "xs = as @ a # b # bs" and l: "length as = i"
    by (rule adjacent_split)
  show ?thesis unfolding xs l[symmetric]
    by (simp add: splice_insert_def splice_remove_def nth_append list_update_append)
qed

lemma swap_up:
  assumes "Suc j < length xs"
  shows "splice_insert j (xs ! Suc j) (splice_remove (Suc j) xs) = xs[Suc j := xs ! j, j := xs ! Suc j]"
proof -
  from assms obtain as a b bs where xs: "xs = as @ a # b # bs" and l: "length as = j"
    by (rule adjacent_split)
  show ?thesis unfolding xs l[symmetric]
    by (simp add: splice_insert_def splice_remove_def nth_append list_update_append)
qed

text \<open>
  C6: in the child sequence the updater of \<^verbatim>\<open>moveItem\<close> receives, let \<open>idx\<close> be the position of
  the item (the first one with the given id). With delta \<open>+1\<close> and a successor, the item and
  its successor change places; with delta \<open>-1\<close> and a predecessor, the item and its
  predecessor change places; every other position keeps its element. Moving the first item
  up or the last item down returns the sequence as it is, and so does an id that is not in
  the sequence.
\<close>

theorem moveItem_swaps_neighbours:
  "(findIndex (\<lambda>i. item_id i = itemId) its = None \<longrightarrow> moveItem_updater itemId delta its = its) \<and>
   (findIndex (\<lambda>i. item_id i = itemId) its = Some idx \<longrightarrow>
      (Suc idx < length its \<longrightarrow>
         moveItem_updater itemId 1 its = its[idx := its ! Suc idx, Suc idx := its ! idx]) \<and>
      (0 < idx \<longrightarrow>
         moveItem_updater itemId (- 1) its = its[idx := its ! (idx - 1), idx - 1 := its ! idx]) \<and>
      (idx = 0 \<longrightarrow> moveItem_updater itemId (- 1) its = its) \<and>
      (Suc idx = length its \<longrightarrow> moveItem_updater itemId 1 its = its))"
proof (intro conjI impI)
  assume "findIndex (\<lambda>i. item_id i = itemId) its = None"
  then show "moveItem_updater itemId delta its = its" by (simp add: moveItem_updater_def)
next
  assume f: "findIndex (\<lambda>i. item_id i = itemId) its = Some idx" and b: "Suc idx < length its"
  have "nat (int idx + 1) = Suc idx" by simp
  with f b show "moveItem_updater itemId 1 its = its[idx := its ! Suc idx, Suc idx := its ! idx]"
    by (simp add: moveItem_updater_def swap_down)
next
  assume f: "findIndex (\<lambda>i. item_id i = itemId) its = Some idx" and b: "0 < idx"
  from findIndex_Some[OF f] have l: "idx < length its" by simp
  from b obtain j where j: "idx = Suc j" by (cases idx) auto
  have n: "nat (int (Suc j) + - 1) = j" by simp
  from l j have "Suc j < length its" by simp
  from swap_up[OF this] f l n
  show "moveItem_updater itemId (- 1) its = its[idx := its ! (idx - 1), idx - 1 := its ! idx]"
    unfolding j by (simp add: moveItem_updater_def)
next
  assume "findIndex (\<lambda>i. item_id i = itemId) its = Some idx" "idx = 0"
  then show "moveItem_updater itemId (- 1) its = its" by (simp add: moveItem_updater_def)
next
  assume "findIndex (\<lambda>i. item_id i = itemId) its = Some idx" "Suc idx = length its"
  then show "moveItem_updater itemId 1 its = its" by (auto simp add: moveItem_updater_def Let_def)
qed

theorem moveItem_swaps_neighbours_witness:
  "findIndex (\<lambda>i. item_id i = ''l9'') [gmail, slack, reading] = None \<and>
   moveItem_updater ''l9'' 1 [gmail, slack, reading] = [gmail, slack, reading] \<and>
   findIndex (\<lambda>i. item_id i = ''l2'') [gmail, slack, reading] = Some 1 \<and>
   moveItem_updater ''l2'' 1 [gmail, slack, reading] = [gmail, reading, slack] \<and>
   moveItem_updater ''l2'' (- 1) [gmail, slack, reading] = [slack, gmail, reading] \<and>
   findIndex (\<lambda>i. item_id i = ''l1'') [gmail, slack, reading] = Some 0 \<and>
   moveItem_updater ''l1'' (- 1) [gmail, slack, reading] = [gmail, slack, reading] \<and>
   findIndex (\<lambda>i. item_id i = ''reading'') [gmail, slack, reading] = Some 2 \<and>
   moveItem_updater ''reading'' 1 [gmail, slack, reading] = [gmail, slack, reading]"
proof -
  let ?its = "[gmail, slack, reading]"
  have f0: "findIndex (\<lambda>i. item_id i = ''l9'') ?its = None" by (simp add: example_defs)
  have f1: "findIndex (\<lambda>i. item_id i = ''l2'') ?its = Some 1" by (simp add: example_defs)
  have f2: "findIndex (\<lambda>i. item_id i = ''l1'') ?its = Some 0" by (simp add: example_defs)
  have f3: "findIndex (\<lambda>i. item_id i = ''reading'') ?its = Some 2" by (simp add: example_defs)
  have c0: "moveItem_updater ''l9'' 1 ?its = ?its"
    using moveItem_swaps_neighbours [of "''l9''" ?its 1 0] f0 by blast
  have "moveItem_updater ''l2'' 1 ?its = ?its[1 := ?its ! Suc 1, Suc 1 := ?its ! 1]"
    using moveItem_swaps_neighbours [of "''l2''" ?its 1 1] f1 by simp
  then have c1: "moveItem_updater ''l2'' 1 ?its = [gmail, reading, slack]" by simp
  have "moveItem_updater ''l2'' (- 1) ?its = ?its[1 := ?its ! (1 - 1), 1 - 1 := ?its ! 1]"
    using moveItem_swaps_neighbours [of "''l2''" ?its 1 1] f1 by simp
  then have c2: "moveItem_updater ''l2'' (- 1) ?its = [slack, gmail, reading]" by simp
  have c3: "moveItem_updater ''l1'' (- 1) ?its = ?its"
    using moveItem_swaps_neighbours [of "''l1''" ?its 1 0] f2 by simp
  have c4: "moveItem_updater ''reading'' 1 ?its = ?its"
    using moveItem_swaps_neighbours [of "''reading''" ?its 1 2] f3 by simp
  from f0 c0 f1 c1 c2 f2 c3 f3 c4 show ?thesis by blast
qed

section \<open>Properties of deepCloneItem\<close>

lemma deepClone_counter:
  "snd (deepCloneItem src n it) = n + item_count it"
  "snd (deepCloneItems src n its) = n + items_count its"
  by (induction src n it and src n its rule: deepCloneItem_deepCloneItems.induct)
     (auto split: prod.splits)

lemma upt_split3: "[n..<n + (a + b)] = [n..<n + a] @ [n + a..<n + a + b]"
  by (metis add.assoc le_add1 upt_add_eq_append)

lemma deepClone_ids:
  "item_ids (fst (deepCloneItem src n it)) = map (generateId src) [n..<n + item_count it]"
  "items_ids (fst (deepCloneItems src n its)) = map (generateId src) [n..<n + items_count its]"
proof (induction src n it and src n its rule: deepCloneItem_deepCloneItems.induct)
  case (1 src n i t u ic a)
  then show ?case by simp
next
  case (2 src n i t ic kids)
  obtain ks n' where k: "deepCloneItems src (Suc n) kids = (ks, n')"
    by (cases "deepCloneItems src (Suc n) kids")
  have u: "[n..<n + Suc (items_count kids)] = n # [Suc n..<Suc n + items_count kids]"
    by (simp add: upt_conv_Cons)
  from 2 k have "items_ids ks = map (generateId src) [Suc n..<Suc n + items_count kids]" by simp
  with k show ?case unfolding item_count.simps u by simp
next
  case (3 src n)
  then show ?case by simp
next
  case (4 src n x xs)
  obtain x' n1 where x: "deepCloneItem src n x = (x', n1)" by (cases "deepCloneItem src n x")
  obtain xs' n2 where xs: "deepCloneItems src n1 xs = (xs', n2)" by (cases "deepCloneItems src n1 xs")
  from x have n1: "n1 = n + item_count x" using deepClone_counter(1)[of src n x] by simp
  from 4(1) x have i1: "item_ids x' = map (generateId src) [n..<n + item_count x]" by simp
  from 4(2)[OF x[symmetric]] xs
  have i2: "items_ids xs' = map (generateId src) [n1..<n1 + items_count xs]" by simp
  show ?case using x xs i1 i2 n1 by (simp add: upt_split3)
qed

lemma deepClone_erase:
  "erase_ids (fst (deepCloneItem src n it)) = erase_ids it"
  "map erase_ids (fst (deepCloneItems src n its)) = map erase_ids its"
  by (induction src n it and src n its rule: deepCloneItem_deepCloneItems.induct)
     (auto split: prod.splits option.splits)

lemma deepClone_title: "title (fst (deepCloneItem src n it)) = title it"
  by (cases it) (auto split: prod.splits)

lemma length_item_ids:
  "length (item_ids it) = item_count it"
  "length (items_ids its) = items_count its"
  by (induction it and its rule: item_ids_items_ids.induct) auto

lemma item_ids_set_title: "item_ids (set_title t x) = item_ids x"
  by (cases x) auto

lemma title_set_title: "title (set_title t x) = t"
  by (cases x) auto

lemma erase_ids_set_title: "erase_ids (set_title t x) = set_title t (erase_ids x)"
  by (cases x) auto

text \<open>
  C5: when the updater of \<^verbatim>\<open>duplicateItem\<close> finds the item (at \<open>idx\<close>, the first with the given
  id) in the child sequence, and the ids the generator hands out during the call are
  pairwise distinct and none of them occurs in the original subtree (the generator is
  fresh), then the result is the old sequence with one clone inserted right after the
  original, all other items in place; the clone's subtree carries exactly the generated
  ids, one per item of the original subtree (N ids for N items), pairwise distinct and
  none equal to an id of the original subtree; and the clone's title is the original title
  followed by \<^verbatim>\<open> (Copy)\<close>.
\<close>

theorem duplicateItem_fresh_clone:
  assumes f: "findIndex (\<lambda>i. item_id i = itemId) its = Some idx"
    and d: "distinct (map (generateId src) [n..<n + item_count (its ! idx)])"
    and fresh: "set (map (generateId src) [n..<n + item_count (its ! idx)])
                  \<inter> set (item_ids (its ! idx)) = {}"
  shows "duplicateItem_updater src n itemId its
           = (take (Suc idx) its @ fst (duplicateItem_updater src n itemId its) ! Suc idx
                # drop (Suc idx) its,
              n + item_count (its ! idx)) \<and>
         last (take (Suc idx) its) = its ! idx \<and>
         item_id (its ! idx) = itemId \<and>
         item_ids (fst (duplicateItem_updater src n itemId its) ! Suc idx)
           = map (generateId src) [n..<n + item_count (its ! idx)] \<and>
         length (item_ids (fst (duplicateItem_updater src n itemId its) ! Suc idx))
           = item_count (its ! idx) \<and>
         distinct (item_ids (fst (duplicateItem_updater src n itemId its) ! Suc idx)) \<and>
         set (item_ids (fst (duplicateItem_updater src n itemId its) ! Suc idx))
           \<inter> set (item_ids (its ! idx)) = {} \<and>
         title (fst (duplicateItem_updater src n itemId its) ! Suc idx)
           = title (its ! idx) @ '' (Copy)''"
proof -
  from findIndex_Some[OF f] have l: "idx < length its" and i: "item_id (its ! idx) = itemId"
    by simp_all
  obtain c n' where c: "deepCloneItem src n (its ! idx) = (c, n')"
    by (cases "deepCloneItem src n (its ! idx)")
  have n': "n' = n + item_count (its ! idx)"
    using deepClone_counter(1)[of src n "its ! idx"] c by simp
  have ids: "item_ids c = map (generateId src) [n..<n + item_count (its ! idx)]"
    using deepClone_ids(1)[of src n "its ! idx"] c by simp
  have t: "title c = title (its ! idx)" using deepClone_title[of src n "its ! idx"] c by simp
  define clone where "clone = set_title (title c @ '' (Copy)'') c"
  have r: "duplicateItem_updater src n itemId its
             = (take (Suc idx) its @ clone # drop (Suc idx) its, n + item_count (its ! idx))"
    using f c n' by (simp add: duplicateItem_updater_def splice_insert_def clone_def)
  have nth: "fst (duplicateItem_updater src n itemId its) ! Suc idx = clone"
    using l by (simp add: r nth_append)
  have la: "last (take (Suc idx) its) = its ! idx"
    using l by (simp add: take_Suc_conv_app_nth)
  have ids': "item_ids clone = map (generateId src) [n..<n + item_count (its ! idx)]"
    using ids by (simp add: item_ids_set_title clone_def)
  have tc: "title clone = title (its ! idx) @ '' (Copy)''"
    using t by (simp add: title_set_title clone_def)
  show ?thesis unfolding nth
    using r la i ids' d fresh tc by simp
qed

theorem duplicateItem_fresh_clone_witness:
  "findIndex (\<lambda>i. item_id i = ''work'') (items example_tree) = Some 0 \<and>
   distinct (map (generateId example_source) [0..<0 + item_count (items example_tree ! 0)]) \<and>
   set (map (generateId example_source) [0..<0 + item_count (items example_tree ! 0)])
     \<inter> set (item_ids (items example_tree ! 0)) = {} \<and>
   item_count (items example_tree ! 0) = 5 \<and>
   item_ids (fst (duplicateItem_updater example_source 0 ''work'' (items example_tree)) ! Suc 0)
     = [''lx-4fzyo8'', ''lx0-4fzyo8'', ''lx00-4fzyo8'', ''lx000-4fzyo8'', ''lx0000-4fzyo8''] \<and>
   title (fst (duplicateItem_updater example_source 0 ''work'' (items example_tree)) ! Suc 0)
     = ''Work (Copy)'' \<and>
   snd (duplicateItem_updater example_source 0 ''work'' (items example_tree)) = 5"
proof -
  have c: "item_count (items example_tree ! 0) = 5" by (simp add: example_defs)
  have g: "map (generateId example_source) [0..<0 + 5]
     = [''lx-4fzyo8'', ''lx0-4fzyo8'', ''lx00-4fzyo8'', ''lx000-4fzyo8'', ''lx0000-4fzyo8'']"
    by (simp add: generateId_def example_source_def upt_rec)
  have h1: "findIndex (\<lambda>i. item_id i = ''work'') (items example_tree) = Some 0"
    by (simp add: example_defs)
  have h2: "distinct (map (generateId example_source) [0..<0 + item_count (items example_tree ! 0)])"
    unfolding c g by simp
  have h3: "set (map (generateId example_source) [0..<0 + item_count (items example_tree ! 0)])
     \<inter> set (item_ids (items example_tree ! 0)) = {}"
    unfolding c g by (simp add: example_defs)
  note t = duplicateItem_fresh_clone [OF h1 h2 h3]
  from t have r1: "item_ids (fst (duplicateItem_updater example_source 0 ''work'' (items example_tree)) ! Suc 0)
     = map (generateId example_source) [0..<0 + item_count (items example_tree ! 0)]" by blast
  from t have r2: "title (fst (duplicateItem_updater example_source 0 ''work'' (items example_tree)) ! Suc 0)
     = title (items example_tree ! 0) @ '' (Copy)''" by blast
  from t have r3: "snd (duplicateItem_updater example_source 0 ''work'' (items example_tree))
     = 0 + item_count (items example_tree ! 0)" by (metis snd_conv)
  have t0: "title (items example_tree ! 0) = ''Work''" by (simp add: example_defs)
  show ?thesis using h1 h2 h3 c r1[unfolded c g] r2[unfolded t0] r3[unfolded c] by simp
qed

text \<open>
  C10: the clone that \<^verbatim>\<open>deepCloneItem\<close> returns differs from the original in its ids only:
  with all ids blanked the two are the same tree (titles, urls, icons, app references,
  number and order of children, at every level), and the clone's ids are the freshly
  generated ones. The item that \<^verbatim>\<open>duplicateItem\<close> inserts differs from the original, ids
  apart, in its own title only, which has \<^verbatim>\<open> (Copy)\<close> appended; no descendant is touched.
\<close>

theorem deepClone_changes_only_ids:
  "erase_ids (fst (deepCloneItem src n item)) = erase_ids item \<and>
   item_ids (fst (deepCloneItem src n item)) = map (generateId src) [n..<n + item_count item] \<and>
   (findIndex (\<lambda>i. item_id i = itemId) its = Some idx \<longrightarrow>
      erase_ids (fst (duplicateItem_updater src n itemId its) ! Suc idx)
        = set_title (title (its ! idx) @ '' (Copy)'') (erase_ids (its ! idx)))"
proof (intro conjI impI)
  show "erase_ids (fst (deepCloneItem src n item)) = erase_ids item" by (rule deepClone_erase)
  show "item_ids (fst (deepCloneItem src n item)) = map (generateId src) [n..<n + item_count item]"
    by (rule deepClone_ids)
next
  assume f: "findIndex (\<lambda>i. item_id i = itemId) its = Some idx"
  from findIndex_Some[OF f] have l: "idx < length its" by simp
  obtain c n' where c: "deepCloneItem src n (its ! idx) = (c, n')"
    by (cases "deepCloneItem src n (its ! idx)")
  have e: "erase_ids c = erase_ids (its ! idx)" and t: "title c = title (its ! idx)"
    using deepClone_erase(1)[of src n "its ! idx"] deepClone_title[of src n "its ! idx"] c by simp_all
  have "fst (duplicateItem_updater src n itemId its) ! Suc idx = set_title (title c @ '' (Copy)'') c"
    using f c l by (simp add: duplicateItem_updater_def splice_insert_def nth_append)
  then show "erase_ids (fst (duplicateItem_updater src n itemId its) ! Suc idx)
        = set_title (title (its ! idx) @ '' (Copy)'') (erase_ids (its ! idx))"
    using e t by (simp add: erase_ids_set_title)
qed

theorem deepClone_changes_only_ids_witness:
  "findIndex (\<lambda>i. item_id i = ''work'') (items example_tree) = Some 0 \<and>
   erase_ids (fst (duplicateItem_updater example_source 0 ''work'' (items example_tree)) ! Suc 0)
     = FolderItem [] ''Work (Copy)'' None
         [LinkItem [] ''Gmail'' ''https://mail.google.com'' None None,
          LinkItem [] ''Slack'' ''https://slack.com'' None None,
          FolderItem [] ''Reading'' None
            [LinkItem [] ''Docs'' ''https://docs.example.org'' None None]]"
proof -
  have h1: "findIndex (\<lambda>i. item_id i = ''work'') (items example_tree) = Some 0"
    by (simp add: example_defs)
  from deepClone_changes_only_ids [of example_source 0 work "''work''" "items example_tree" 0] h1
  have "erase_ids (fst (duplicateItem_updater example_source 0 ''work'' (items example_tree)) ! Suc 0)
        = set_title (title (items example_tree ! 0) @ '' (Copy)'') (erase_ids (items example_tree ! 0))"
    by blast
  then show ?thesis using h1 by (simp add: example_defs)
qed

section \<open>Properties of openAllLinks\<close>

lemma collect_links_preorder:
  "collect_links its = map (\<lambda>it. (url it, app it)) (filter (\<lambda>x. \<not> is_folder x) (preorder its))"
  by (induction its rule: collect_links.induct) auto

lemma open_each_attempts: "fst (open_each h k links) = links"
  by (induction h k links rule: open_each.induct) (auto split: prod.splits)

lemma open_each_commands: "length (fst (snd (open_each h k links))) = length links"
  by (induction h k links rule: open_each.induct) (auto split: prod.splits)

lemma openAllLinks_attempts_eq: "attempts (openAllLinks h folder) = getAllLinksData folder"
proof (cases "getAllLinksData folder = []")
  case True
  then show ?thesis by (simp add: openAllLinks_def)
next
  case False
  obtain att cmds errs where o: "open_each h 0 (getAllLinksData folder) = (att, cmds, errs)"
    by (cases "open_each h 0 (getAllLinksData folder)")
  with open_each_attempts[of h 0 "getAllLinksData folder"] have "att = getAllLinksData folder" by simp
  with False o show ?thesis by (simp add: openAllLinks_def Let_def)
qed

lemma openAllLinks_commands: "length (commands (openAllLinks h folder)) = length (getAllLinksData folder)"
proof (cases "getAllLinksData folder = []")
  case True
  then show ?thesis by (simp add: openAllLinks_def)
next
  case False
  obtain att cmds errs where o: "open_each h 0 (getAllLinksData folder) = (att, cmds, errs)"
    by (cases "open_each h 0 (getAllLinksData folder)")
  with open_each_commands[of h 0 "getAllLinksData folder"] have "length cmds = length (getAllLinksData folder)" by simp
  with False o show ?thesis by (simp add: openAllLinks_def Let_def)
qed

text \<open>
  C7: whatever the host does on each open, \<^verbatim>\<open>openAllLinks\<close> calls \<^verbatim>\<open>openUrl\<close> once for every
  link under the folder, in depth-first pre-order, and runs one command per link. A folder
  with two direct links and one subfolder holding one link yields exactly three attempts.
  A folder without any link, at any depth, gets the failure toast \<^verbatim>\<open>No links in this folder\<close>
  and no attempt; otherwise the success toast counts the attempts.
\<close>

theorem openAllLinks_attempts_every_link:
  "attempts (openAllLinks h (FolderItem i t ic kids))
     = map (\<lambda>it. (url it, app it)) (filter (\<lambda>x. \<not> is_folder x) (preorder kids)) \<and>
   length (commands (openAllLinks h (FolderItem i t ic kids)))
     = length (filter (\<lambda>x. \<not> is_folder x) (preorder kids)) \<and>
   attempts (openAllLinks h (FolderItem i t ic
       [LinkItem i1 t1 u1 ic1 a1, LinkItem i2 t2 u2 ic2 a2,
        FolderItem i3 t3 ic3 [LinkItem i4 t4 u4 ic4 a4]]))
     = [(u1, a1), (u2, a2), (u4, a4)] \<and>
   (filter (\<lambda>x. \<not> is_folder x) (preorder kids) = [] \<longrightarrow>
      openAllLinks h (FolderItem i t ic kids)
        = \<lparr>attempts = [], commands = [], console = [],
           toast = ToastFailure ''No links in this folder''\<rparr>) \<and>
   (filter (\<lambda>x. \<not> is_folder x) (preorder kids) \<noteq> [] \<longrightarrow>
      toast (openAllLinks h (FolderItem i t ic kids))
        = ToastSuccess (''Opened ''
            @ decimal (length (filter (\<lambda>x. \<not> is_folder x) (preorder kids))) @ '' link''
            @ (if length (filter (\<lambda>x. \<not> is_folder x) (preorder kids)) = 1 then [] else ''s'')))"
proof (intro conjI impI)
  show "attempts (openAllLinks h (FolderItem i t ic kids))
     = map (\<lambda>it. (url it, app it)) (filter (\<lambda>x. \<not> is_folder x) (preorder kids))"
    by (simp add: openAllLinks_attempts_eq getAllLinksData_def collect_links_preorder)
  show "length (commands (openAllLinks h (FolderItem i t ic kids)))
     = length (filter (\<lambda>x. \<not> is_folder x) (preorder kids))"
    by (simp add: openAllLinks_commands getAllLinksData_def collect_links_preorder)
  show "attempts (openAllLinks h (FolderItem i t ic
       [LinkItem i1 t1 u1 ic1 a1, LinkItem i2 t2 u2 ic2 a2,
        FolderItem i3 t3 ic3 [LinkItem i4 t4 u4 ic4 a4]]))
     = [(u1, a1), (u2, a2), (u4, a4)]"
    by (simp add: openAllLinks_attempts_eq getAllLinksData_def)
next
  assume "filter (\<lambda>x. \<not> is_folder x) (preorder kids) = []"
  then have "collect_links kids = []" by (simp add: collect_links_preorder)
  then show "openAllLinks h (FolderItem i t ic kids)
        = \<lparr>attempts = [], commands = [], console = [],
           toast = ToastFailure ''No links in this folder''\<rparr>"
    by (simp add: openAllLinks_def getAllLinksData_def)
next
  assume a: "filter (\<lambda>x. \<not> is_folder x) (preorder kids) \<noteq> []"
  have l: "length (collect_links kids) = length (filter (\<lambda>x. \<not> is_folder x) (preorder kids))"
    by (simp add: collect_links_preorder)
  from a have "collect_links kids \<noteq> []" by (simp add: collect_links_preorder)
  then show "toast (openAllLinks h (FolderItem i t ic kids))
        = ToastSuccess (''Opened ''
            @ decimal (length (filter (\<lambda>x. \<not> is_folder x) (preorder kids))) @ '' link''
            @ (if length (filter (\<lambda>x. \<not> is_folder x) (preorder kids)) = 1 then [] else ''s''))"
    unfolding l[symmetric]
    by (simp add: openAllLinks_def getAllLinksData_def Let_def split: prod.splits)
qed

lemmas host_example_defs = example_defs example_host_def empty_folders_def

theorem openAllLinks_attempts_every_link_witness:
  "filter (\<lambda>x. \<not> is_folder x) (preorder (folder_items empty_folders)) = [] \<and>
   openAllLinks example_host empty_folders
     = \<lparr>attempts = [], commands = [], console = [],
        toast = ToastFailure ''No links in this folder''\<rparr> \<and>
   filter (\<lambda>x. \<not> is_folder x) (preorder (folder_items work)) \<noteq> [] \<and>
   toast (openAllLinks example_host work) = ToastSuccess ''Opened 3 links'' \<and>
   attempts (openAllLinks example_host work)
     = [(''https://mail.google.com'', None), (''https://slack.com'', None),
        (''https://docs.example.org'', None)] \<and>
   console (openAllLinks example_host work) = [''Failed to open https://slack.com:'']"
proof -
  have h1: "filter (\<lambda>x. \<not> is_folder x) (preorder [FolderItem ''e2'' ''Inner'' None []]) = []"
    by simp
  have h2: "filter (\<lambda>x. \<not> is_folder x) (preorder [gmail, slack, reading]) = [gmail, slack, docs]"
    by (simp add: example_defs)
  note t1 = openAllLinks_attempts_every_link
    [of example_host "''e1''" "''Empty''" None "[FolderItem ''e2'' ''Inner'' None []]"]
  note t2 = openAllLinks_attempts_every_link
    [of example_host "''work''" "''Work''" None "[gmail, slack, reading]"]
  from t1 h1 have c1: "openAllLinks example_host empty_folders
     = \<lparr>attempts = [], commands = [], console = [],
        toast = ToastFailure ''No links in this folder''\<rparr>"
    unfolding empty_folders_def by blast
  from t2 have "toast (openAllLinks example_host work)
        = ToastSuccess (''Opened ''
            @ decimal (length (filter (\<lambda>x. \<not> is_folder x) (preorder [gmail, slack, reading]))) @ '' link''
            @ (if length (filter (\<lambda>x. \<not> is_folder x) (preorder [gmail, slack, reading])) = 1 then [] else ''s''))"
    unfolding work_def h2 by simp
  then have c2: "toast (openAllLinks example_host work) = ToastSuccess ''Opened 3 links''"
    unfolding h2 by (simp add: decimal.simps)
  from t2 have "attempts (openAllLinks example_host work)
     = map (\<lambda>it. (url it, app it)) (filter (\<lambda>x. \<not> is_folder x) (preorder [gmail, slack, reading]))"
    unfolding work_def by blast
  then have c3: "attempts (openAllLinks example_host work)
     = [(''https://mail.google.com'', None), (''https://slack.com'', None),
        (''https://docs.example.org'', None)]"
    unfolding h2 by (simp add: example_defs)
  have c4: "console (openAllLinks example_host work) = [''Failed to open https://slack.com:'']"
    by (simp add: openAllLinks_def getAllLinksData_def openUrl_def openUrl_command_def host_example_defs)
  show ?thesis using h1 c1 h2 c2 c3 c4 by (simp add: empty_folders_def work_def)
qed

section \<open>Properties of migrateData\<close>

lemma map_of_Some_key: "map_of kvs k = Some v \<Longrightarrow> k \<in> fst ` set kvs"
  by (metis domI dom_map_of_conv_image_fst)

lemma migrateData_current: "current_shape t \<Longrightarrow> migrateData src n t = Inr (t, n)"
  by (cases t) (auto simp: current_shape_def migrateData_def map_of_Some_key
                     split: option.splits)

lemma migrateData_output_current:
  "migrateData src n raw = Inr (t, n') \<Longrightarrow> current_shape t"
  by (auto simp: migrateData_def current_shape_def empty_document_def
           split: if_splits jsval.splits sum.splits prod.splits)

lemma migrateData_neither:
  "\<not> current_shape raw \<Longrightarrow> \<not> legacy_shape raw \<Longrightarrow> migrateData src n raw = Inr (empty_document, n)"
  by (cases raw; cases "property raw ''folders''")
     (auto simp: current_shape_def legacy_shape_def migrateData_def)

lemma convertLinks_returns:
  "(\<exists>ys n'. convertLinks src n ls = Inr (ys, n')) = list_all dereferenceable ls"
proof (induction ls arbitrary: n)
  case Nil
  then show ?case by simp
next
  case (Cons l ls)
  show ?case
  proof (cases "dereferenceable l")
    case True
    then have "\<exists>y n1. convertLink src n l = Inr (y, n1)"
      by (cases "truthy (property l ''id'')") (simp_all add: convertLink_def dereferenceable_def)
    then obtain y n1 where y: "convertLink src n l = Inr (y, n1)" by blast
    from Cons.IH[of n1] True y show ?thesis
      by (auto split: sum.splits prod.splits)
  next
    case False
    then have "convertLink src n l = Inl TypeError"
      by (auto simp: convertLink_def dereferenceable_def)
    with False show ?thesis by simp
  qed
qed

lemma convertFolder_returns:
  "(\<exists>r n'. convertFolder src n f = Inr (r, n')) = convertible f"
  "(\<exists>rs n'. convertFolders src n fs = Inr (rs, n')) = all_convertible fs"
proof (induction src n f and src n fs rule: convertFolder_convertFolders.induct)
  case (1 src n f)
  show ?case
  proof (cases "f = Null \<or> f = Undefined")
    case True
    then show ?thesis
      by (subst convertFolder.simps, subst convertible.simps) simp
  next
    case nn: False
    define F where "F = (case property f ''folders'' of
                    Arr subs \<Rightarrow> convertFolders src n subs
                  | _ \<Rightarrow> Inr ([], n))"
    define cf where "cf = (case property f ''folders'' of
              Arr subs \<Rightarrow> all_convertible subs
            | _ \<Rightarrow> True)"
    have Fc: "(\<exists>rs n1. F = Inr (rs, n1)) = cf"
    proof (cases "property f ''folders''")
      case (Arr subs)
      with 1[OF nn Arr] show ?thesis by (simp add: F_def cf_def)
    qed (simp_all add: F_def cf_def)
    have c: "convertible f = (cf \<and> list_all dereferenceable (elements (property f ''links'')))"
      using nn by (subst convertible.simps) (simp add: cf_def)
    show ?thesis
    proof (cases F)
      case (Inl e)
      with Fc have "\<not> cf" by auto
      moreover from Inl nn have "convertFolder src n f = Inl e"
        by (subst convertFolder.simps) (simp add: F_def[symmetric])
      ultimately show ?thesis using c by simp
    next
      case (Inr p)
      then obtain rs n1 where F1: "F = Inr (rs, n1)" by (cases p) auto
      with Fc have cf by auto
      define L where "L = (case property f ''links'' of
                         Arr ls \<Rightarrow> convertLinks src n1 ls
                       | _ \<Rightarrow> Inr ([], n1))"
      have Lc: "(\<exists>ys n2. L = Inr (ys, n2)) = list_all dereferenceable (elements (property f ''links''))"
        by (cases "property f ''links''") (simp_all add: L_def convertLinks_returns)
      have "(\<exists>r n'. convertFolder src n f = Inr (r, n')) = (\<exists>ys n2. L = Inr (ys, n2))"
        using nn F1
        by (subst convertFolder.simps)
           (auto simp: F_def[symmetric] L_def[symmetric] split: sum.splits prod.splits)
      with Lc c \<open>cf\<close> show ?thesis by simp
    qed
  qed
next
  case (2 src n)
  show ?case by simp
next
  case (3 src n x xs)
  show ?case
  proof (cases "convertFolder src n x")
    case (Inl e)
    with 3(1) have "\<not> convertible x" by auto
    with Inl show ?thesis by simp
  next
    case (Inr p)
    then obtain y n1 where y: "convertFolder src n x = Inr (y, n1)" by (cases p) auto
    with 3(1) have cx: "convertible x" by auto
    from 3(2)[OF y[unfolded prod.collapse] refl] cx y show ?thesis
      by (auto split: sum.splits prod.splits)
  qed
qed

lemma migrateData_returns:
  "(\<exists>t n'. migrateData src n raw = Inr (t, n')) = migratable raw"
proof (cases "current_shape raw")
  case True
  then show ?thesis by (simp add: migrateData_current migratable_def)
next
  case nc: False
  show ?thesis
  proof (cases "legacy_shape raw")
    case False
    with nc have "migrateData src n raw = Inr (empty_document, n)" by (rule migrateData_neither)
    moreover from False have "elements (property raw ''folders'') = []"
      by (cases raw; cases "property raw ''folders''") (auto simp: legacy_shape_def)
    ultimately show ?thesis by (simp add: migratable_def)
  next
    case True
    then obtain kvs fs where raw: "raw = Obj kvs" and fs: "property raw ''folders'' = Arr fs"
      by (cases raw; cases "property raw ''folders''") (auto simp: legacy_shape_def)
    from raw fs have k: "''folders'' \<in> fst ` set kvs"
      by (auto split: option.splits dest: map_of_Some_key)
    from nc raw have ni: "\<not> (in_op ''items'' raw \<and> isArray (property raw ''items''))"
      by (auto simp: current_shape_def)
    have "migrateData src n raw =
            (case convertFolders src n fs of
               Inl e \<Rightarrow> Inl e
             | Inr (its, n') \<Rightarrow> Inr (Obj [(''items'', Arr its)], n'))"
      using ni raw fs k unfolding migrateData_def by auto
    then have "(\<exists>t n'. migrateData src n raw = Inr (t, n'))
                 = (\<exists>rs n'. convertFolders src n fs = Inr (rs, n'))"
      by (auto split: sum.splits prod.splits)
    with nc fs show ?thesis by (simp add: convertFolder_returns migratable_def)
  qed
qed

text \<open>
  C4: \<^verbatim>\<open>migrateData\<close> has no output on a legacy document that holds \<^verbatim>\<open>null\<close> in place of a folder
  or of a link: \<^verbatim>\<open>convertFolder\<close> reads \<^verbatim>\<open>f.folders\<close>, and the callback of \<^verbatim>\<open>f.links.forEach\<close> reads
  \<^verbatim>\<open>link.id\<close>, and the read throws a \<^verbatim>\<open>TypeError\<close>, whatever the id source and the number of
  ids generated before. Both documents have the legacy shape (a \<^verbatim>\<open>folders\<close> sequence).
\<close>

theorem migrateData_throws_on_null_entry:
  "legacy_shape legacy_null_folder \<and>
   migrateData src n legacy_null_folder = Inl TypeError \<and>
   legacy_shape legacy_null_link \<and>
   migrateData src n legacy_null_link = Inl TypeError"
  by (simp add: legacy_shape_def migrateData_def legacy_null_folder_def legacy_null_link_def
        convertFolder.simps convertLink_def)

lemma convertFolders_all2:
  "convertFolders src n xs = Inr (ys, n') \<Longrightarrow>
     list_all2 (\<lambda>s y. \<exists>m m'. convertFolder src m s = Inr (y, m')) xs ys"
proof (induction xs arbitrary: n ys)
  case Nil
  then show ?case by simp
next
  case (Cons x xs)
  from Cons.prems obtain y n1 zs where
    y: "convertFolder src n x = Inr (y, n1)" and zs: "convertFolders src n1 xs = Inr (zs, n')"
    and ys: "ys = y # zs"
    by (auto split: sum.splits prod.splits)
  from Cons.IH[OF zs] y ys show ?case by auto
qed

lemma convertLinks_all2:
  "convertLinks src n xs = Inr (ys, n') \<Longrightarrow>
     list_all2 (\<lambda>l y. \<exists>m m'. convertLink src m l = Inr (y, m')) xs ys"
proof (induction xs arbitrary: n ys)
  case Nil
  then show ?case by simp
next
  case (Cons x xs)
  from Cons.prems obtain y n1 zs where
    y: "convertLink src n x = Inr (y, n1)" and zs: "convertLinks src n1 xs = Inr (zs, n')"
    and ys: "ys = y # zs"
    by (auto split: sum.splits prod.splits)
  from Cons.IH[OF zs] y ys show ?case by auto
qed

lemma convertFolder_type: "convertFolder src m s = Inr (y, m') \<Longrightarrow> property y ''type'' = Str ''folder''"
  by (subst (asm) convertFolder.simps) (auto split: if_splits sum.splits prod.splits)

lemma convertLink_type: "convertLink src m l = Inr (y, m') \<Longrightarrow> property y ''type'' = Str ''link''"
  by (auto simp: convertLink_def split: if_splits)

lemma convertFolder_children:
  assumes "convertFolder src n f = Inr (r, n')"
  shows "\<exists>fs ls. property r ''items'' = Arr (fs @ ls) \<and>
           list_all2 (\<lambda>s y. \<exists>m m'. convertFolder src m s = Inr (y, m'))
             (elements (property f ''folders'')) fs \<and>
           list_all2 (\<lambda>l y. \<exists>m m'. convertLink src m l = Inr (y, m'))
             (elements (property f ''links'')) ls"
proof -
  define F where "F = (case property f ''folders'' of
                    Arr subs \<Rightarrow> convertFolders src n subs
                  | _ \<Rightarrow> Inr ([], n))"
  from assms obtain fs n1 where F: "F = Inr (fs, n1)"
    by (subst (asm) convertFolder.simps) (auto simp: F_def split: if_splits sum.splits prod.splits)
  define L where "L = (case property f ''links'' of
                         Arr ls \<Rightarrow> convertLinks src n1 ls
                       | _ \<Rightarrow> Inr ([], n1))"
  from assms F obtain ls n2 where L: "L = Inr (ls, n2)"
    by (subst (asm) convertFolder.simps)
       (auto simp: F_def[symmetric] L_def split: if_splits sum.splits prod.splits)
  from assms F L have r: "property r ''items'' = Arr (fs @ ls)"
    by (subst (asm) convertFolder.simps)
       (auto simp: F_def[symmetric] L_def[symmetric] split: if_splits sum.splits prod.splits)
  have a: "list_all2 (\<lambda>s y. \<exists>m m'. convertFolder src m s = Inr (y, m'))
             (elements (property f ''folders'')) fs"
    using F unfolding F_def by (cases "property f ''folders''") (auto dest: convertFolders_all2)
  have b: "list_all2 (\<lambda>l y. \<exists>m m'. convertLink src m l = Inr (y, m'))
             (elements (property f ''links'')) ls"
    using L unfolding L_def by (cases "property f ''links''") (auto dest: convertLinks_all2)
  from r a b show ?thesis by blast
qed


text \<open>
  C3: migrating the legacy document of the specification, with a folder \<^verbatim>\<open>work\<close> named \<^verbatim>\<open>Work\<close>
  that holds the link \<^verbatim>\<open>Gmail\<close>, yields a tree whose \<^verbatim>\<open>items\<close> are exactly one folder with id
  \<^verbatim>\<open>work\<close> and title \<^verbatim>\<open>Work\<close>, whose children are exactly one link with title \<^verbatim>\<open>Gmail\<close>, url
  \<^verbatim>\<open>https://mail.google.com\<close> and the id generated by this call of \<^verbatim>\<open>generateId\<close>, which is not
  empty. In general the children of a converted folder are the conversions of its nested
  folders, in order, followed by the conversions of its links, in order.
\<close>

theorem migrateData_legacy_example:
  "migrateData src n legacy_example = Inr (migrated_example (generateId src n), Suc n) \<and>
   generateId src n \<noteq> [] \<and>
   as_LinksData (migrated_example (generateId src n))
     = Some \<lparr>items = [FolderItem ''work'' ''Work'' None
                         [LinkItem (generateId src n) ''Gmail'' ''https://mail.google.com''
                            None None]]\<rparr> \<and>
   (convertFolder src n f = Inr (r, n') \<longrightarrow>
      (\<exists>fs ls. property r ''items'' = Arr (fs @ ls) \<and>
         list_all2 (\<lambda>s y. \<exists>m m'. convertFolder src m s = Inr (y, m'))
           (elements (property f ''folders'')) fs \<and>
         list_all2 (\<lambda>l y. \<exists>m m'. convertLink src m l = Inr (y, m'))
           (elements (property f ''links'')) ls \<and>
         list_all (\<lambda>y. property y ''type'' = Str ''folder'') fs \<and>
         list_all (\<lambda>y. property y ''type'' = Str ''link'') ls))"
proof (intro conjI impI)
  show "migrateData src n legacy_example = Inr (migrated_example (generateId src n), Suc n)"
    by (simp add: migrateData_def legacy_example_def convertFolder.simps convertLink_def
          js_or_def migrated_example_def)
  show "generateId src n \<noteq> []" by (simp add: generateId_def)
  show "as_LinksData (migrated_example (generateId src n))
     = Some \<lparr>items = [FolderItem ''work'' ''Work'' None
                         [LinkItem (generateId src n) ''Gmail'' ''https://mail.google.com''
                            None None]]\<rparr>"
    by (simp add: migrated_example_def as_LinksData_def as_AnyItem.simps as_optional_SavedApp_def)
next
  assume c: "convertFolder src n f = Inr (r, n')"
  from convertFolder_children[OF c] obtain fs ls where
    r: "property r ''items'' = Arr (fs @ ls)"
    and a: "list_all2 (\<lambda>s y. \<exists>m m'. convertFolder src m s = Inr (y, m'))
              (elements (property f ''folders'')) fs"
    and b: "list_all2 (\<lambda>l y. \<exists>m m'. convertLink src m l = Inr (y, m'))
              (elements (property f ''links'')) ls"
    by blast
  have tf: "list_all (\<lambda>y. property y ''type'' = Str ''folder'') fs"
    unfolding list_all_iff
  proof
    fix y assume "y \<in> set fs"
    then obtain k where "k < length fs" "fs ! k = y" by (auto simp: in_set_conv_nth)
    with a obtain m m' where "convertFolder src m (elements (property f ''folders'') ! k) = Inr (y, m')"
      by (auto simp: list_all2_conv_all_nth)
    then show "property y ''type'' = Str ''folder''" by (rule convertFolder_type)
  qed
  have tl: "list_all (\<lambda>y. property y ''type'' = Str ''link'') ls"
    unfolding list_all_iff
  proof
    fix y assume "y \<in> set ls"
    then obtain k where "k < length ls" "ls ! k = y" by (auto simp: in_set_conv_nth)
    with b obtain m m' where "convertLink src m (elements (property f ''links'') ! k) = Inr (y, m')"
      by (auto simp: list_all2_conv_all_nth)
    then show "property y ''type'' = Str ''link''" by (rule convertLink_type)
  qed
  from r a b tf tl
  show "\<exists>fs ls. property r ''items'' = Arr (fs @ ls) \<and>
         list_all2 (\<lambda>s y. \<exists>m m'. convertFolder src m s = Inr (y, m'))
           (elements (property f ''folders'')) fs \<and>
         list_all2 (\<lambda>l y. \<exists>m m'. convertLink src m l = Inr (y, m'))
           (elements (property f ''links'')) ls \<and>
         list_all (\<lambda>y. property y ''type'' = Str ''folder'') fs \<and>
         list_all (\<lambda>y. property y ''type'' = Str ''link'') ls"
    by blast
qed

theorem migrateData_legacy_example_witness:
  "convertFolder example_source 0 legacy_nested_folder = Inr (converted_nested_folder, 3) \<and>
   (\<exists>fs ls. property converted_nested_folder ''items'' = Arr (fs @ ls) \<and>
      list_all2 (\<lambda>s y. \<exists>m m'. convertFolder example_source m s = Inr (y, m'))
        (elements (property legacy_nested_folder ''folders'')) fs \<and>
      list_all2 (\<lambda>l y. \<exists>m m'. convertLink example_source m l = Inr (y, m'))
        (elements (property legacy_nested_folder ''links'')) ls \<and>
      list_all (\<lambda>y. property y ''type'' = Str ''folder'') fs \<and>
      list_all (\<lambda>y. property y ''type'' = Str ''link'') ls)"
proof -
  have h: "convertFolder example_source 0 legacy_nested_folder = Inr (converted_nested_folder, 3)"
    by (simp add: legacy_nested_folder_def legacy_work_folder_def converted_nested_folder_def
          convertFolder.simps convertLink_def js_or_def generateId_def example_source_def)
  from migrateData_legacy_example
    [of example_source 0 legacy_nested_folder converted_nested_folder 3] h
  show ?thesis by blast
qed

section \<open>Properties of loadLinks and saveLinks\<close>

lemma as_SavedApp_json: "as_SavedApp (json_of_app a) = Some a"
  by (cases "bundleId a") (simp_all add: as_SavedApp_def json_of_app_def)

lemma json_of_app_defined: "json_of_app a \<noteq> Undefined"
  by (simp add: json_of_app_def)

lemma as_items_json:
  "as_AnyItem (json_of_item it) = Some it"
  "as_AnyItems (map json_of_item its) = Some its"
proof (induction it and its rule: item_ids_items_ids.induct)
  case (1 i t u ic a)
  show ?case
    by (cases ic; cases a)
       (simp_all add: as_AnyItem.simps as_optional_SavedApp_def as_SavedApp_json json_of_app_defined)
next
  case (2 i t ic kids)
  then show ?case by (cases ic) (simp_all add: as_AnyItem.simps)
next
  case 3
  show ?case by simp
next
  case (4 x xs)
  then show ?case by simp
qed

lemma as_LinksData_json: "as_LinksData (json_of_data T) = Some T"
  by (simp add: as_LinksData_def json_of_data_def as_items_json)

lemma getPreferencePath_nonempty: "getPreferencePath env lp = Some p \<Longrightarrow> p \<noteq> []"
  by (auto simp: getPreferencePath_def split: option.splits if_splits)

lemma current_shape_json: "current_shape (json_of_data T)"
  by (simp add: current_shape_def json_of_data_def)

lemma truthy_json: "truthy (json_of_data T)"
  by (simp add: json_of_data_def)

lemma loadLinks_after_saveLinks:
  "loadLinks env linksPath (saveLinks env linksPath fs T) src n = (Inr (json_of_data T, n), [])"
proof -
  have m: "migrateData src n (json_of_data T) = Inr (json_of_data T, n)"
    by (rule migrateData_current) (rule current_shape_json)
  show ?thesis
  proof (cases "getPreferencePath env linksPath")
    case None
    then show ?thesis
      by (simp add: loadLinks_def saveLinks_def tryLoad_def truthy_json m)
  next
    case (Some p)
    with getPreferencePath_nonempty[OF Some] show ?thesis
      by (simp add: loadLinks_def saveLinks_def tryLoad_def truthy_json m)
  qed
qed

text \<open>
  C2: for every tree \<open>T\<close> of the type \<^verbatim>\<open>LinksData\<close>, whatever the files, the preference and the
  host directories are, loading after saving \<open>T\<close> returns, without an exception, a console
  line or a generated id, the JSON document of \<open>T\<close>, and that document read as a
  \<^verbatim>\<open>LinksData\<close> is \<open>T\<close> itself: every item, with its id, title, url, icon, app and children in
  order.
\<close>

theorem save_then_load:
  "loadLinks env linksPath (saveLinks env linksPath fs T) src n = (Inr (json_of_data T, n), []) \<and>
   as_LinksData (json_of_data T) = Some T"
  by (simp add: loadLinks_after_saveLinks as_LinksData_json)

lemma tryLoad_usable: "parses_truthy fs p \<Longrightarrow> tryLoad fs p = (parsed fs p, [])"
  by (auto simp: parses_truthy_def tryLoad_def parsed_def split: option.splits file_content.splits)

lemma tryLoad_unusable:
  "\<not> parses_truthy fs p \<Longrightarrow>
     \<not> truthy (fst (tryLoad fs p)) \<and>
     snd (tryLoad fs p) = (if fails_to_parse fs p then [failure_line p] else [])"
  by (auto simp: parses_truthy_def tryLoad_def fails_to_parse_def failure_line_def
           split: option.splits file_content.splits)

lemma loadLinks_three:
  "loadLinks env linksPath fs src n =
     (migrateData src n (first_document (parses_truthy fs) fs (candidates env linksPath)),
      map failure_line
        (filter (fails_to_parse fs)
           (takeWhile (\<lambda>p. \<not> parses_truthy fs p) (candidates env linksPath))))"
proof -
  let ?s = "join env (supportPath env) ''links.json''"
  let ?a = "join env (assetsPath env) ''links.json''"
  define R where "R = (\<lambda>l. case tryLoad fs ?s of
                  (r2, log2) \<Rightarrow>
                    if truthy r2 then (migrateData src n r2, l @ log2)
                    else (case tryLoad fs ?a of
                            (r3, log3) \<Rightarrow>
                              if truthy r3 then (migrateData src n r3, l @ log2 @ log3)
                              else (migrateData src n empty_document, l @ log2 @ log3)))"
  define D where "D = first_document (parses_truthy fs) fs [?s, ?a]"
  define L where "L = map failure_line (filter (fails_to_parse fs)
              (takeWhile (\<lambda>p. \<not> parses_truthy fs p) [?s, ?a]))"
  have two: "R l = (migrateData src n D, l @ L)" for l
  proof (cases "parses_truthy fs ?s")
    case True
    then have "truthy (parsed fs ?s)"
      by (auto simp: parses_truthy_def parsed_def split: option.splits file_content.splits)
    with True show ?thesis by (simp add: R_def D_def L_def tryLoad_usable first_document_def)
  next
    case s: False
    obtain r2 log2 where t2: "tryLoad fs ?s = (r2, log2)" by (cases "tryLoad fs ?s")
    from tryLoad_unusable[OF s] t2 have r2: "\<not> truthy r2"
      and l2: "log2 = (if fails_to_parse fs ?s then [failure_line ?s] else [])" by simp_all
    show ?thesis
    proof (cases "parses_truthy fs ?a")
      case True
      then have "truthy (parsed fs ?a)"
        by (auto simp: parses_truthy_def parsed_def split: option.splits file_content.splits)
      with True s t2 r2 l2 show ?thesis
        by (simp add: R_def D_def L_def tryLoad_usable first_document_def)
    next
      case a: False
      obtain r3 log3 where t3: "tryLoad fs ?a = (r3, log3)" by (cases "tryLoad fs ?a")
      from tryLoad_unusable[OF a] t3 have r3: "\<not> truthy r3"
        and l3: "log3 = (if fails_to_parse fs ?a then [failure_line ?a] else [])" by simp_all
      from s a t2 t3 r2 r3 l2 l3 show ?thesis
        by (simp add: R_def D_def L_def first_document_def)
    qed
  qed
  show ?thesis
  proof (cases "getPreferencePath env linksPath")
    case None
    then have "loadLinks env linksPath fs src n = R []"
      by (simp add: loadLinks_def R_def)
    with None two[of "[]"] show ?thesis
      by (simp add: candidates_def D_def L_def)
  next
    case (Some p)
    then have ne: "p \<noteq> []" by (rule getPreferencePath_nonempty)
    have c: "candidates env linksPath = p # [?s, ?a]" using Some by (simp add: candidates_def)
    have ll: "loadLinks env linksPath fs src n =
                (case tryLoad fs p of
                   (r1, log1) \<Rightarrow> if truthy r1 then (migrateData src n r1, log1) else R log1)"
      using Some ne by (cases "tryLoad fs p") (simp add: loadLinks_def R_def)
    show ?thesis
    proof (cases "parses_truthy fs p")
      case True
      then have "truthy (parsed fs p)"
        by (auto simp: parses_truthy_def parsed_def split: option.splits file_content.splits)
      with True show ?thesis
        unfolding ll c by (simp add: tryLoad_usable first_document_def)
    next
      case False
      obtain r1 log1 where t1: "tryLoad fs p = (r1, log1)" by (cases "tryLoad fs p")
      from tryLoad_unusable[OF False] t1 have r1: "\<not> truthy r1"
        and l1: "log1 = (if fails_to_parse fs p then [failure_line p] else [])" by simp_all
      have fd: "first_document (parses_truthy fs) fs (p # [?s, ?a]) = D"
        using False by (simp add: first_document_def D_def)
      have lg: "map failure_line (filter (fails_to_parse fs)
                  (takeWhile (\<lambda>p. \<not> parses_truthy fs p) (p # [?s, ?a]))) = log1 @ L"
        using False l1 by (simp add: L_def)
      from t1 r1 have "loadLinks env linksPath fs src n = R log1" unfolding ll by simp
      with two[of log1] show ?thesis unfolding c fd lg by simp
    qed
  qed
qed

text \<open>
  C8, as the specification states it: the first candidate that exists and parses as JSON is
  the one whose content is returned after migration. In \<open>null_then_document\<close> the support
  file exists and parses, to \<^verbatim>\<open>null\<close>, whose migration is the empty tree; yet \<^verbatim>\<open>loadLinks\<close> returns
  the document of the assets file, because \<^verbatim>\<open>tryLoad(...) || ...\<close> passes over a falsy value.
\<close>

theorem loadLinks_falsy_document_counterexample:
  "candidates example_env None = [''/support/links.json'', ''/assets/links.json''] \<and>
   parses null_then_document ''/support/links.json'' \<and>
   first_document (parses null_then_document) null_then_document (candidates example_env None)
     = Null \<and>
   migrateData example_source 0 Null = Inr (empty_document, 0) \<and>
   fst (loadLinks example_env None null_then_document example_source 0)
     = Inr (json_of_data \<lparr>items = [gmail]\<rparr>, 0) \<and>
   fst (loadLinks example_env None null_then_document example_source 0)
     \<noteq> migrateData example_source 0
         (first_document (parses null_then_document) null_then_document
            (candidates example_env None))"
  by (simp add: candidates_def getPreferencePath_def example_env_def parses_def
        null_then_document_def first_document_def parsed_def migrateData_def
        loadLinks_def tryLoad_def json_of_data_def empty_document_def)

text \<open>
  C8, amended: \<^verbatim>\<open>loadLinks\<close> goes through the user-configured path (when the preference is set,
  trimmed), the support path and the assets path, in this order, and hands to \<^verbatim>\<open>migrateData\<close>
  the content of the first one that exists, parses as JSON and whose parsed value is truthy
  (not \<^verbatim>\<open>null\<close>, \<^verbatim>\<open>false\<close>, \<^verbatim>\<open>0\<close> or the empty string); of the candidates before it, each one
  that exists and fails to parse is logged, the others are skipped silently. When that
  content holds no \<^verbatim>\<open>null\<close> in place of a legacy folder or link, \<^verbatim>\<open>loadLinks\<close> returns the tree
  \<^verbatim>\<open>migrateData\<close> makes of it, which has an \<^verbatim>\<open>items\<close> sequence. When no candidate is usable, it
  returns the empty document \<^verbatim>\<open>{ items: [] }\<close> without an exception.
\<close>

theorem loadLinks_first_usable:
  "loadLinks env linksPath fs src n =
     (migrateData src n (first_document (parses_truthy fs) fs (candidates env linksPath)),
      map failure_line
        (filter (fails_to_parse fs)
           (takeWhile (\<lambda>p. \<not> parses_truthy fs p) (candidates env linksPath)))) \<and>
   (migratable (first_document (parses_truthy fs) fs (candidates env linksPath)) \<longrightarrow>
      (\<exists>t n'. fst (loadLinks env linksPath fs src n) = Inr (t, n') \<and>
         migrateData src n (first_document (parses_truthy fs) fs (candidates env linksPath))
           = Inr (t, n') \<and>
         current_shape t)) \<and>
   (find (parses_truthy fs) (candidates env linksPath) = None \<longrightarrow>
      fst (loadLinks env linksPath fs src n) = Inr (empty_document, n))"
proof (intro conjI impI)
  show "loadLinks env linksPath fs src n =
     (migrateData src n (first_document (parses_truthy fs) fs (candidates env linksPath)),
      map failure_line
        (filter (fails_to_parse fs)
           (takeWhile (\<lambda>p. \<not> parses_truthy fs p) (candidates env linksPath))))"
    by (rule loadLinks_three)
next
  assume "migratable (first_document (parses_truthy fs) fs (candidates env linksPath))"
  then obtain t n' where
    m: "migrateData src n (first_document (parses_truthy fs) fs (candidates env linksPath))
          = Inr (t, n')"
    using migrateData_returns by blast
  from m have "current_shape t" by (rule migrateData_output_current)
  with m show "\<exists>t n'. fst (loadLinks env linksPath fs src n) = Inr (t, n') \<and>
         migrateData src n (first_document (parses_truthy fs) fs (candidates env linksPath))
           = Inr (t, n') \<and>
         current_shape t"
    by (simp add: loadLinks_three)
next
  assume "find (parses_truthy fs) (candidates env linksPath) = None"
  then have "first_document (parses_truthy fs) fs (candidates env linksPath) = empty_document"
    by (simp add: first_document_def)
  moreover have "migrateData src n empty_document = Inr (empty_document, n)"
    by (rule migrateData_current) (simp add: current_shape_def empty_document_def)
  ultimately show "fst (loadLinks env linksPath fs src n) = Inr (empty_document, n)"
    by (simp add: loadLinks_three)
qed

theorem loadLinks_first_usable_witness:
  "candidates example_env (Some '' /prefs/my.json '')
     = [''/prefs/my.json'', ''/support/links.json'', ''/assets/links.json''] \<and>
   loadLinks example_env (Some '' /prefs/my.json '') broken_then_document example_source 0
     = (Inr (json_of_data \<lparr>items = [gmail]\<rparr>, 0),
        [''Failed to load links from /prefs/my.json:'']) \<and>
   migratable
     (first_document (parses_truthy broken_then_document) broken_then_document
        (candidates example_env (Some '' /prefs/my.json ''))) \<and>
   current_shape (json_of_data \<lparr>items = [gmail]\<rparr>) \<and>
   find (parses_truthy Map.empty) (candidates example_env None) = None \<and>
   fst (loadLinks example_env None Map.empty example_source 0) = Inr (empty_document, 0)"
proof -
  have c: "candidates example_env (Some '' /prefs/my.json '')
     = [''/prefs/my.json'', ''/support/links.json'', ''/assets/links.json'']"
    by (simp add: candidates_def getPreferencePath_def ascii_trim_def is_space_def example_env_def)
  have m: "migrateData example_source 0 (json_of_data \<lparr>items = [gmail]\<rparr>)
             = Inr (json_of_data \<lparr>items = [gmail]\<rparr>, 0)"
    by (rule migrateData_current) (rule current_shape_json)
  have "loadLinks example_env (Some '' /prefs/my.json '') broken_then_document example_source 0
     = (migrateData example_source 0
          (first_document (parses_truthy broken_then_document) broken_then_document
             (candidates example_env (Some '' /prefs/my.json ''))),
        map failure_line
          (filter (fails_to_parse broken_then_document)
             (takeWhile (\<lambda>p. \<not> parses_truthy broken_then_document p)
                (candidates example_env (Some '' /prefs/my.json '')))))"
    using loadLinks_first_usable
      [of example_env "Some '' /prefs/my.json ''" broken_then_document example_source 0]
    by blast
  then have l: "loadLinks example_env (Some '' /prefs/my.json '') broken_then_document example_source 0
     = (Inr (json_of_data \<lparr>items = [gmail]\<rparr>, 0),
        [''Failed to load links from /prefs/my.json:''])"
    unfolding c
    by (simp add: first_document_def parses_truthy_def broken_then_document_def parsed_def
          fails_to_parse_def failure_line_def truthy_json m)
  have fd: "first_document (parses_truthy broken_then_document) broken_then_document
              (candidates example_env (Some '' /prefs/my.json ''))
            = json_of_data \<lparr>items = [gmail]\<rparr>"
    unfolding c
    by (simp add: first_document_def parses_truthy_def broken_then_document_def parsed_def
          truthy_json)
  have hm: "migratable
     (first_document (parses_truthy broken_then_document) broken_then_document
        (candidates example_env (Some '' /prefs/my.json '')))"
    unfolding fd by (simp add: migratable_def current_shape_json)
  from loadLinks_first_usable
      [of example_env "Some '' /prefs/my.json ''" broken_then_document example_source 0] hm
  obtain t n' where
    "fst (loadLinks example_env (Some '' /prefs/my.json '') broken_then_document
            example_source 0) = Inr (t, n')"
    and "current_shape t"
    by blast
  with l have cs: "current_shape (json_of_data \<lparr>items = [gmail]\<rparr>)" by simp
  have h: "find (parses_truthy Map.empty) (candidates example_env None) = None"
    by (simp add: candidates_def getPreferencePath_def parses_truthy_def)
  from loadLinks_first_usable [of example_env None Map.empty example_source 0] h
  have e: "fst (loadLinks example_env None Map.empty example_source 0) = Inr (empty_document, 0)"
    by blast
  from c l hm cs h e show ?thesis by blast
qed

section \<open>Properties of AddLinkForm.handleSubmit\<close>
































text \<open>
  On the JSON document of a typed tree, writing and reading back changes nothing, and
  \<open>saveLinks_js\<close> is \<open>saveLinks\<close>.
\<close>

lemma to_json_json_of_app: "to_json (json_of_app a) = json_of_app a"
  by (cases "bundleId a") (simp_all add: json_of_app_def)

lemma json_of_item_defined: "json_of_item x \<noteq> Undefined"
  by (cases x) simp_all

lemma to_json_json_of_item: "to_json (json_of_item x) = json_of_item x"
proof (induction x)
  case (LinkItem i t u ic a)
  show ?case
    by (cases ic; cases a) (simp_all add: to_json_json_of_app json_of_app_defined)
next
  case (FolderItem i t ic kids)
  then have "map (\<lambda>x. if x = Undefined then Null else to_json x) (map json_of_item kids)
               = map json_of_item kids"
    by (induction kids) (simp_all add: json_of_item_defined)
  then show ?case
    by (cases ic) simp_all
qed

lemma to_json_json_of_data: "to_json (json_of_data T) = json_of_data T"
proof -
  have "map (\<lambda>x. if x = Undefined then Null else to_json x) (map json_of_item (items T))
               = map json_of_item (items T)"
    by (induction "items T" arbitrary: T) (simp_all add: json_of_item_defined to_json_json_of_item)
  then show ?thesis by (simp add: json_of_data_def)
qed

lemma saveLinks_js_typed:
  "saveLinks_js env linksPath fs (json_of_data T) = Inr (saveLinks env linksPath fs T)"
proof -
  have "json_of_data T \<noteq> Undefined" by (simp add: json_of_data_def)
  then show ?thesis
    by (simp add: saveLinks_js_def saveLinks_def Let_def to_json_json_of_data)
qed









end
